theory Spec2Isabelle
  imports Main
begin

section \<open>Data model of the arXiv client\<close>

text \<open>
  Go's \<open>int\<close> is a 64-bit two's complement integer. The counters and offsets of the
  iterator are modelled as \<open>int\<close>, and every addition, subtraction and multiplication
  the source performs on them is wrapped by \<open>int64\<close>, which is the identity inside
  the 64-bit range and wraps around outside it.
\<close>

definition int64 :: "int \<Rightarrow> int" where
  "int64 x = (x + 2 ^ 63) mod 2 ^ 64 - 2 ^ 63"

definition int64_range :: "int \<Rightarrow> bool" where
  "int64_range x \<longleftrightarrow> - (2 ^ 63) \<le> x \<and> x < 2 ^ 63"

text \<open>\<open>time.Time\<close> readings and \<open>time.Duration\<close> values, both in nanoseconds.\<close>

type_synonym Time = int
type_synonym Duration = int

subsection \<open>Errors\<close>

datatype ErrorType =
    ErrorTypeRateLimit
  | ErrorTypeTimeout
  | ErrorTypeParsing
  | ErrorTypeNetwork
  | ErrorTypeNotFound
  | ErrorTypeInvalidQuery
  | ErrorTypeNoEntry
  | ErrorTypeUnknown

text \<open>
  A Go \<open>error\<close> value is either an \<open>*APIError\<close> (fields \<open>Type\<close>, \<open>Message\<close>,
  \<open>Code\<close>, \<open>Retry\<close>, \<open>Err\<close>) or some other error (a context error, an error of the
  HTTP stack, a \<open>fmt.Errorf\<close> value) with its message and the error it wraps, if any.
  \<open>nil\<close> is \<open>None\<close> of \<open>error option\<close>.
\<close>

datatype error =
    APIError (Type: ErrorType) (Message: string) (Code: int) (Retry: bool) (Err: "error option")
  | OtherError string "error option"

definition NewAPIError :: "ErrorType \<Rightarrow> string \<Rightarrow> error option \<Rightarrow> error" where
  "NewAPIError errorType message err =
     (let retry = (errorType = ErrorTypeRateLimit \<or> errorType = ErrorTypeTimeout
                   \<or> errorType = ErrorTypeNetwork \<or> errorType = ErrorTypeNoEntry)
      in APIError errorType message 0 retry err)"

text \<open>
  \<open>errors.As(err, &apiErr)\<close> with \<open>apiErr\<close> of type \<open>*APIError\<close>: the first
  \<open>*APIError\<close> on the chain that \<open>Unwrap\<close> walks, if there is one.
\<close>

fun errors_As :: "error \<Rightarrow> error option" where
  "errors_As (APIError t m c r e) = Some (APIError t m c r e)"
| "errors_As (OtherError m None) = None"
| "errors_As (OtherError m (Some e)) = errors_As e"

subsection \<open>Papers, queries and search results\<close>

text \<open>
  Of a \<open>Paper\<close> only the identity matters to the code modelled here (no modelled
  function reads a field of it), so two of its string fields stand for the record.
\<close>

record Paper =
  ID :: string
  Title :: string

record Query =
  SearchQuery :: string
  IDList :: "string list"
  Start :: int
  MaxResults :: int
  Limit :: int
  SortBy :: string
  SortOrder :: string
  SubmittedDateFrom :: "string option"
  SubmittedDateTo :: "string option"

text \<open>
  The two date fields are \<open>*time.Time\<close> in the source; the only use made of them is
  \<open>Format("20060102")\<close>, so a date is represented by its formatted string.
\<close>

record SearchResults =
  Papers :: "Paper list"
  TotalCount :: int
  StartIndex :: int
  ItemsPerPage :: int

section \<open>The iteration state machine\<close>

datatype IteratorState =
    StateInitial
  | StateFetching
  | StateReady
  | StateExhausted
  | StateError

record State =
  Current :: IteratorState
  CurrentPage :: int
  CurrentIndex :: int
  TotalFetched :: int
  Error :: "error option"
  Results :: "SearchResults option"

datatype Action =
    FetchAction "SearchResults option" "error option"
  | ConsumeAction

fun Apply :: "Action \<Rightarrow> State \<Rightarrow> State" where
  "Apply (FetchAction a_Results a_Error) state =
     (if a_Error \<noteq> None then
        \<lparr>Current = StateError,
         CurrentPage = CurrentPage state,
         CurrentIndex = CurrentIndex state,
         TotalFetched = TotalFetched state,
         Error = a_Error,
         Results = Results state\<rparr>
      else if a_Results = None \<or> length (Papers (the a_Results)) = 0 then
        \<lparr>Current = StateExhausted,
         CurrentPage = CurrentPage state,
         CurrentIndex = CurrentIndex state,
         TotalFetched = TotalFetched state,
         Error = None,
         Results = a_Results\<rparr>
      else
        \<lparr>Current = StateReady,
         CurrentPage = int64 (CurrentPage state + 1),
         CurrentIndex = 0,
         TotalFetched = TotalFetched state,
         Error = None,
         Results = a_Results\<rparr>)"
| "Apply ConsumeAction state =
     \<lparr>Current = Current state,
      CurrentPage = CurrentPage state,
      CurrentIndex = int64 (CurrentIndex state + 1),
      TotalFetched = int64 (TotalFetched state + 1),
      Error = Error state,
      Results = Results state\<rparr>"

text \<open>The zero value \<open>State{Current: StateInitial}\<close>.\<close>

definition initialState :: State where
  "initialState =
     \<lparr>Current = StateInitial, CurrentPage = 0, CurrentIndex = 0, TotalFetched = 0,
      Error = None, Results = None\<rparr>"

section \<open>The paginator\<close>

text \<open>
  The methods of \<open>Paginator\<close> read their receiver only through \<open>p.query\<close>; they are
  modelled as functions of the \<open>Query\<close> that pointer refers to.
\<close>

definition CalculateStartIndex :: "Query \<Rightarrow> int \<Rightarrow> SearchResults option \<Rightarrow> int" where
  "CalculateStartIndex q currentPage results =
     (case results of
        Some r \<Rightarrow> int64 (StartIndex r + int (length (Papers r)))
      | None \<Rightarrow> int64 (currentPage * MaxResults q))"

definition CalculateMaxResults :: "Query \<Rightarrow> int \<Rightarrow> int" where
  "CalculateMaxResults q totalFetched =
     (let maxResults = MaxResults q in
      if Limit q > 0 then
        (let remaining = int64 (Limit q - totalFetched) in
         if remaining < maxResults then remaining else maxResults)
      else maxResults)"

definition HasMoreData :: "Query \<Rightarrow> State \<Rightarrow> bool" where
  "HasMoreData q state =
     (case Results state of
        None \<Rightarrow> True
      | Some r \<Rightarrow>
          if Limit q > 0 \<and> TotalFetched state \<ge> Limit q then False
          else
            (let expectedTotal = int64 (StartIndex r + int (length (Papers r))) in
             if TotalCount r > 0 \<and> expectedTotal \<ge> TotalCount r then False
             else if int (length (Papers r)) < MaxResults q then False
             else True))"

section \<open>The iterator\<close>

text \<open>
  The caller's \<open>Query\<close> is shared by pointer. The store maps addresses to the
  \<open>Query\<close> values they hold; a pointer is an address or \<open>nil\<close> (\<open>None\<close>).
  An \<open>Iterator\<close> owns its \<open>StateManager\<close> (whose only field is the state) and
  holds the query pointer; its \<open>Paginator\<close> holds the same pointer (\<open>NewIterator\<close> and
  \<open>WithContext\<close> are the only constructors and set both from one value). The
  \<open>Fetcher\<close> is the parameter \<open>fetch\<close> of \<open>nextPaper\<close>: what \<open>Fetcher.Fetch\<close>
  returns, as the pair of a result pointer and an error. \<open>nextPaper\<close> calls it on
  the address of a local copy of the query, which is never nil.
\<close>

type_synonym addr = nat
type_synonym store = "addr \<Rightarrow> Query option"
type_synonym fetcher = "Query \<Rightarrow> SearchResults option \<times> error option"

record Iterator =
  query :: "addr option"
  stateManager :: State

definition NewIterator :: "addr option \<Rightarrow> Iterator" where
  "NewIterator q = \<lparr>query = q, stateManager = initialState\<rparr>"

definition GetState :: "Iterator \<Rightarrow> State" where
  "GetState it = stateManager it"

definition Transition :: "Action \<Rightarrow> Iterator \<Rightarrow> Iterator" where
  "Transition action it = it\<lparr>stateManager := Apply action (stateManager it)\<rparr>"

definition deref :: "store \<Rightarrow> addr option \<Rightarrow> Query option" where
  "deref h p = (case p of None \<Rightarrow> None | Some a \<Rightarrow> h a)"

definition needsMoreData :: "Query \<Rightarrow> State \<Rightarrow> bool" where
  "needsMoreData q state =
     (case Results state of
        None \<Rightarrow> True
      | Some r \<Rightarrow>
          if CurrentIndex state \<ge> int (length (Papers r)) then HasMoreData q state
          else False)"

text \<open>
  What one call of \<open>nextPaper\<close> hands back: the two return values, or a run-time
  panic (nil pointer dereference, index out of range).
\<close>

datatype poll = Returned "Paper option" "error option" | Panicked

text \<open>
  The tail of \<open>nextPaper\<close> from "Check if we have papers available" on. At that
  point the local variable \<open>state\<close> equals the state manager's state. The third
  component of the result lists the queries handed to the fetcher during the call.
\<close>

definition yieldPaper :: "Query \<Rightarrow> Iterator \<Rightarrow> Query list \<Rightarrow> poll \<times> Iterator \<times> Query list" where
  "yieldPaper q it fetched =
     (let state = GetState it;
          noPapers = (Returned None None,
                      Transition (FetchAction (Results state) None) it, fetched)
      in case Results state of
           None \<Rightarrow> noPapers
         | Some r \<Rightarrow>
             if CurrentIndex state < int (length (Papers r)) then
               if Limit q > 0 \<and> TotalFetched state \<ge> Limit q then
                 (Returned None None,
                  Transition (FetchAction (Results state) None) it, fetched)
               else if CurrentIndex state < 0 then (Panicked, it, fetched)
               else (Returned (Some (Papers r ! nat (CurrentIndex state))) None,
                     Transition ConsumeAction it, fetched)
             else noPapers)"

text \<open>
  The branch \<open>case StateInitial, StateReady\<close>. Every path through it reads a field
  of the query before its first transition, so a nil query panics with the state
  untouched.
\<close>

definition pollActive :: "fetcher \<Rightarrow> store \<Rightarrow> Iterator \<Rightarrow> poll \<times> Iterator \<times> Query list" where
  "pollActive fetch h it =
     (let state = GetState it in
      case deref h (query it) of
        None \<Rightarrow> (Panicked, it, [])
      | Some q \<Rightarrow>
          if needsMoreData q state then
            if \<not> HasMoreData q state then
              (Returned None None, Transition (FetchAction (Results state) None) it, [])
            else
              (let nextQuery = q\<lparr>Start := CalculateStartIndex q (CurrentPage state) (Results state),
                                  MaxResults := CalculateMaxResults q (TotalFetched state)\<rparr>;
                   (results, err) = fetch nextQuery;
                   it' = Transition (FetchAction results err) it;
                   newState = GetState it'
               in if Current newState = StateError then
                    (Returned None (Error newState), it', [nextQuery])
                  else if Current newState = StateExhausted then
                    (Returned None None, it', [nextQuery])
                  else yieldPaper q it' [nextQuery])
          else yieldPaper q it [])"

text \<open>
  \<open>StateFetching\<close> is not among the cases of the \<open>switch\<close> and takes its
  \<open>default\<close> branch.
\<close>

definition nextPaper :: "fetcher \<Rightarrow> store \<Rightarrow> Iterator \<Rightarrow> poll \<times> Iterator \<times> Query list" where
  "nextPaper fetch h it =
     (let state = GetState it in
      case Current state of
        StateError \<Rightarrow> (Returned None (Error state), it, [])
      | StateExhausted \<Rightarrow> (Returned None None, it, [])
      | StateInitial \<Rightarrow> pollActive fetch h it
      | StateReady \<Rightarrow> pollActive fetch h it
      | StateFetching \<Rightarrow>
          (Returned None (Some (NewAPIError ErrorTypeUnknown ''unknown iterator state'' None)),
           it, []))"

text \<open>
  A sequence of \<open>nextPaper\<close> calls on one iterator. The list gives, call by call,
  how the fetcher answers during that call (each call fetches at most once), so a
  transport whose answers change over time is covered.
\<close>

fun polls :: "store \<Rightarrow> fetcher list \<Rightarrow> Iterator \<Rightarrow> poll list \<times> Iterator \<times> Query list" where
  "polls h [] it = ([], it, [])"
| "polls h (f # fs) it =
     (case nextPaper f h it of
        (r, it', qs) \<Rightarrow>
          (case polls h fs it' of
             (rs, it'', qs') \<Rightarrow> (r # rs, it'', qs @ qs')))"

definition TotalFetched_it :: "Iterator \<Rightarrow> int" where
  "TotalFetched_it it = TotalFetched (GetState it)"

text \<open>
  The query \<open>nextPaper\<close> hands to the fetcher when it asks for a new page: a copy of
  the caller's query with \<open>Start\<close> and \<open>MaxResults\<close> overwritten.
\<close>

definition nextQuery :: "Query \<Rightarrow> State \<Rightarrow> Query" where
  "nextQuery q state =
     q\<lparr>Start := CalculateStartIndex q (CurrentPage state) (Results state),
       MaxResults := CalculateMaxResults q (TotalFetched state)\<rparr>"

text \<open>A call of \<open>nextPaper\<close> yields an item when it returns a paper and a nil error.\<close>

fun yielded :: "poll \<Rightarrow> bool" where
  "yielded (Returned (Some p) None) = True"
| "yielded _ = False"

text \<open>
  \<open>Reset\<close> replaces the state by the initial one and, when the query pointer is
  not nil, stores 0 in the \<open>Start\<close> field of the \<open>Query\<close> it points to.
  \<open>WithContext\<close> builds an iterator with a fresh state manager and the same
  query pointer.
\<close>

definition Reset :: "store \<Rightarrow> Iterator \<Rightarrow> store \<times> Iterator" where
  "Reset h it =
     (let it' = it\<lparr>stateManager := initialState\<rparr> in
      case query it of
        None \<Rightarrow> (h, it')
      | Some a \<Rightarrow>
          (case h a of
             None \<Rightarrow> (h, it')
           | Some q \<Rightarrow> (h(a \<mapsto> q\<lparr>Start := 0\<rparr>), it')))"

definition WithContext :: "Iterator \<Rightarrow> Iterator" where
  "WithContext it = \<lparr>query = query it, stateManager = initialState\<rparr>"

section \<open>The client\<close>

definition defaultMaxResults :: int where
  "defaultMaxResults = 500"

definition defaultSortBy :: string where
  "defaultSortBy = ''relevance''"

definition defaultSortOrder :: string where
  "defaultSortOrder = ''descending''"

record ClientOptions =
  RetryAttempts :: int
  RetryDelay :: Duration
  RateLimit :: Duration
  UserAgent :: string
  Timeout :: Duration

record Client =
  baseURL :: string
  options :: ClientOptions
  lastRequest :: Time

definition DefaultClientOptions :: ClientOptions where
  "DefaultClientOptions =
     \<lparr>RetryAttempts = 3, RetryDelay = 1000000000, RateLimit = 1000000000,
      UserAgent = ''arxiv-go/1.0'', Timeout = 30000000000\<rparr>"

text \<open>\<open>NewClient\<close>: the default options and the zero \<open>time.Time\<close>.\<close>

definition NewClient :: Client where
  "NewClient =
     \<lparr>baseURL = ''https://export.arxiv.org/api/query'', options = DefaultClientOptions,
      lastRequest = 0\<rparr>"

subsection \<open>The rate limiter\<close>

text \<open>
  \<open>applyRateLimit\<close> reads the clock twice, in \<open>time.Now()\<close> and in
  \<open>time.Since\<close>; the two readings are the parameters \<open>now\<close> and \<open>since\<close>. The
  parameter \<open>ctxDone\<close> is the outcome of the \<open>select\<close>: \<open>Some e\<close> when the
  context is done before the timer fires and \<open>ctx.Err()\<close> is \<open>e\<close>, \<open>None\<close> when
  the timer fires. The result says how the call waited.
\<close>

datatype wait = NoWait | Waited Duration | Interrupted Duration

definition applyRateLimit ::
  "Client \<Rightarrow> Time \<Rightarrow> Time \<Rightarrow> error option \<Rightarrow> error option \<times> Client \<times> wait" where
  "applyRateLimit c now since ctxDone =
     (let c' = c\<lparr>lastRequest := now\<rparr> in
      if RateLimit (options c') \<le> 0 then (None, c', NoWait)
      else
        (let elapsed = since - lastRequest c' in
         if elapsed \<ge> RateLimit (options c') then (None, c', NoWait)
         else
           (let wait = RateLimit (options c') - elapsed in
            case ctxDone of
              Some e \<Rightarrow> (Some e, c', Interrupted wait)
            | None \<Rightarrow> (None, c', Waited wait))))"

subsection \<open>The retry coordinator\<close>

text \<open>
  The operation \<open>fn\<close> is a closure over mutable state: it is a function from the
  state of its environment to its error result and the new state. \<open>ctxDone a\<close> is
  the outcome of the \<open>select\<close> after attempt \<open>a\<close>: \<open>Some e\<close> when the context is
  done first (\<open>ctx.Err()\<close> is \<open>e\<close>), \<open>None\<close> when \<open>time.After(delay)\<close> fires. The
  run is recorded as a list of events: each call of \<open>fn\<close> with its attempt number,
  each completed wait with its delay, and a wait cut short by the context.
\<close>

datatype event = Attempt int | Wait Duration | Cancelled Duration

function retryLoop ::
  "ClientOptions \<Rightarrow> (int \<Rightarrow> error option) \<Rightarrow> ('w \<Rightarrow> error option \<times> 'w) \<Rightarrow>
   int \<Rightarrow> error option \<Rightarrow> 'w \<Rightarrow> error option \<times> 'w \<times> event list" where
  "retryLoop opts ctxDone fn attempt lastErr w =
     (if attempt < RetryAttempts opts then
        (case fn w of
           (None, w') \<Rightarrow> (None, w', [Attempt attempt])
         | (Some err, w') \<Rightarrow>
             (case errors_As err of
                None \<Rightarrow> (Some err, w', [Attempt attempt])
              | Some apiErr \<Rightarrow>
                  if \<not> Retry apiErr then (Some err, w', [Attempt attempt])
                  else if attempt < RetryAttempts opts - 1 then
                    (let delay = (if attempt \<noteq> 0 then RetryDelay opts else 0) in
                     case ctxDone attempt of
                       Some cerr \<Rightarrow> (Some cerr, w', [Attempt attempt, Cancelled delay])
                     | None \<Rightarrow>
                         (case retryLoop opts ctxDone fn (attempt + 1) (Some err) w' of
                            (r, w'', ev) \<Rightarrow> (r, w'', Attempt attempt # Wait delay # ev)))
                  else
                    (case retryLoop opts ctxDone fn (attempt + 1) (Some err) w' of
                       (r, w'', ev) \<Rightarrow> (r, w'', Attempt attempt # ev))))
      else (lastErr, w, []))"
  by pat_completeness auto
termination
  by (relation "measure (\<lambda>(opts, ctxDone, fn, attempt, lastErr, w).
                  nat (RetryAttempts opts - attempt))") auto

declare retryLoop.simps [simp del]

definition retryWithBackoff ::
  "ClientOptions \<Rightarrow> (int \<Rightarrow> error option) \<Rightarrow> ('w \<Rightarrow> error option \<times> 'w) \<Rightarrow>
   'w \<Rightarrow> error option \<times> 'w \<times> event list" where
  "retryWithBackoff opts ctxDone fn w = retryLoop opts ctxDone fn 0 None w"

text \<open>An error is classified retryable when the loop would go on after it.\<close>

definition retryable :: "error \<Rightarrow> bool" where
  "retryable err = (case errors_As err of None \<Rightarrow> False | Some apiErr \<Rightarrow> Retry apiErr)"

text \<open>The state of the closure's environment after \<open>k\<close> calls of \<open>fn\<close>.\<close>

fun afterCalls :: "('w \<Rightarrow> error option \<times> 'w) \<Rightarrow> nat \<Rightarrow> 'w \<Rightarrow> 'w" where
  "afterCalls fn 0 w = w"
| "afterCalls fn (Suc k) w = afterCalls fn k (snd (fn w))"

text \<open>
  Attempt \<open>j\<close> (counted from 0) of a run started in state \<open>w\<close> fails with an error
  classified retryable.
\<close>

definition failsRetryably :: "('w \<Rightarrow> error option \<times> 'w) \<Rightarrow> 'w \<Rightarrow> nat \<Rightarrow> bool" where
  "failsRetryably fn w j =
     (case fst (fn (afterCalls fn j w)) of None \<Rightarrow> False | Some e \<Rightarrow> retryable e)"

text \<open>
  The events of \<open>k\<close> consecutive attempts, starting with attempt \<open>a\<close>, each of which
  is followed by a completed wait: no delay after attempt 0, \<open>RetryDelay\<close> after
  every later one.
\<close>

fun failedAttempts :: "ClientOptions \<Rightarrow> int \<Rightarrow> nat \<Rightarrow> event list" where
  "failedAttempts opts a 0 = []"
| "failedAttempts opts a (Suc k) =
     Attempt a # Wait (if a \<noteq> 0 then RetryDelay opts else 0) # failedAttempts opts (a + 1) k"

fun isAttempt :: "event \<Rightarrow> bool" where
  "isAttempt (Attempt a) = True"
| "isAttempt _ = False"

subsection \<open>Building the request\<close>

text \<open>\<open>strings.Join\<close> and \<open>strconv.Itoa\<close>.\<close>

fun strings_Join :: "string list \<Rightarrow> string \<Rightarrow> string" where
  "strings_Join [] sep = []"
| "strings_Join [x] sep = x"
| "strings_Join (x # y # ys) sep = x @ sep @ strings_Join (y # ys) sep"

function decimal :: "nat \<Rightarrow> string" where
  "decimal n =
     (if n < 10 then [''0123456789'' ! n]
      else decimal (n div 10) @ [''0123456789'' ! (n mod 10)])"
  by pat_completeness auto
termination
  by (relation "measure id") auto

definition strconv_Itoa :: "int \<Rightarrow> string" where
  "strconv_Itoa i = (if i < 0 then CHR ''-'' # decimal (nat (- i)) else decimal (nat i))"

text \<open>
  \<open>url.Values\<close> as an association list; \<open>Set\<close> replaces the value of a key or adds
  the key.
\<close>

type_synonym Values = "(string \<times> string) list"

definition Values_Set :: "string \<Rightarrow> string \<Rightarrow> Values \<Rightarrow> Values" where
  "Values_Set k v params =
     (if k \<in> set (map fst params)
      then map (\<lambda>p. if fst p = k then (k, v) else p) params
      else params @ [(k, v)])"

definition buildDateRangeFilter :: "string option \<Rightarrow> string option \<Rightarrow> string" where
  "buildDateRangeFilter from to =
     (case (from, to) of
        (Some f, Some t) \<Rightarrow> ''submittedDate:['' @ f @ '' TO '' @ t @ '']''
      | (Some f, None) \<Rightarrow> ''submittedDate:['' @ f @ '' TO *]''
      | (None, Some t) \<Rightarrow> ''submittedDate:[* TO '' @ t @ '']''
      | (None, None) \<Rightarrow> '''')"

definition buildQueryParams :: "Query \<Rightarrow> Values" where
  "buildQueryParams q =
     (let params0 = [];
          searchQuery =
            (if SubmittedDateFrom q \<noteq> None \<or> SubmittedDateTo q \<noteq> None then
               (let dateFilter = buildDateRangeFilter (SubmittedDateFrom q) (SubmittedDateTo q) in
                if SearchQuery q \<noteq> '''' then ''('' @ SearchQuery q @ '') AND '' @ dateFilter
                else dateFilter)
             else SearchQuery q);
          params1 =
            (if length (IDList q) > 0 then
               Values_Set ''id_list'' (strings_Join (IDList q) '','') params0
             else if searchQuery \<noteq> '''' then Values_Set ''search_query'' searchQuery params0
             else params0);
          params2 =
            (if Start q > 0 then Values_Set ''start'' (strconv_Itoa (Start q)) params1
             else params1);
          maxResults = (if MaxResults q \<le> 0 then defaultMaxResults else MaxResults q);
          params3 = Values_Set ''max_results'' (strconv_Itoa maxResults) params2;
          sortBy = (if SortBy q = '''' then defaultSortBy else SortBy q);
          params4 = Values_Set ''sortBy'' sortBy params3;
          sortOrder = (if SortOrder q = '''' then defaultSortOrder else SortOrder q)
      in Values_Set ''sortOrder'' sortOrder params4)"

subsection \<open>Search\<close>

text \<open>
  What one run of the closure inside \<open>Search\<close> observes of the outside world:
  whether \<open>http.NewRequestWithContext\<close> fails, the two clock readings and the
  \<open>select\<close> outcome of the rate limiter, whether \<open>httpClient.Do\<close> fails, the
  status code of the response, whether \<open>io.ReadAll\<close> fails, and what
  \<open>parseSearchResponse\<close> makes of the body.
\<close>

record attempt_env =
  newRequestErr :: "error option"
  rlNow :: Time
  rlSince :: Time
  rlCtxDone :: "error option"
  doErr :: "error option"
  statusCode :: int
  readErr :: "error option"
  parsed :: "error + SearchResults"

text \<open>
  The state the closure works on: the client (its \<open>lastRequest\<close>), the captured
  variable \<open>result\<close>, the parameters of every request handed to \<open>httpClient.Do\<close> so
  far, and the number of runs of the closure so far, which selects the observations
  of the next run. The request URL is the base URL followed by the encoded
  parameters, so a request is recorded as its parameters; the \<open>User-Agent\<close> header
  and the closing of the response body do not affect any result and are left out.
\<close>

record world =
  client :: Client
  result :: "SearchResults option"
  requests :: "Values list"
  tick :: nat

definition searchAttempt :: "(nat \<Rightarrow> attempt_env) \<Rightarrow> Query \<Rightarrow> world \<Rightarrow> error option \<times> world" where
  "searchAttempt env qry w =
     (let e = env (tick w);
          w1 = w\<lparr>tick := Suc (tick w)\<rparr>;
          params = buildQueryParams qry
      in case newRequestErr e of
           Some err \<Rightarrow>
             (Some (NewAPIError ErrorTypeNetwork ''failed to create request'' (Some err)), w1)
         | None \<Rightarrow>
             (case applyRateLimit (client w1) (rlNow e) (rlSince e) (rlCtxDone e) of
                (rlErr, c', waited) \<Rightarrow>
                  (let w2 = w1\<lparr>client := c'\<rparr> in
                   case rlErr of
                     Some err \<Rightarrow> (Some err, w2)
                   | None \<Rightarrow>
                       (let w3 = w2\<lparr>requests := requests w2 @ [params]\<rparr> in
                        case doErr e of
                          Some err \<Rightarrow>
                            (Some (NewAPIError ErrorTypeNetwork ''failed to make request'' (Some err)), w3)
                        | None \<Rightarrow>
                            if statusCode e = 200 then
                              (case readErr e of
                                 Some err \<Rightarrow>
                                   (Some (NewAPIError ErrorTypeNetwork
                                            ''failed to read response body'' (Some err)), w3)
                               | None \<Rightarrow>
                                   (case parsed e of
                                      Inl err \<Rightarrow>
                                        (Some (NewAPIError ErrorTypeParsing
                                                 ''failed to parse response'' (Some err)), w3)
                                    | Inr parsedResult \<Rightarrow>
                                        (None, w3\<lparr>result := Some parsedResult\<rparr>)))
                            else if statusCode e = 429 \<or> statusCode e = 503 then
                              (Some (NewAPIError ErrorTypeRateLimit ''rate limit exceeded''
                                 (Some (OtherError (''rate limit exceeded, status ''
                                          @ strconv_Itoa (statusCode e)) None))), w3)
                            else
                              (Some (NewAPIError ErrorTypeNetwork ''API error''
                                 (Some (OtherError (''unexpected status code ''
                                          @ strconv_Itoa (statusCode e)) None))), w3)))))"

definition Search ::
  "(nat \<Rightarrow> attempt_env) \<Rightarrow> (int \<Rightarrow> error option) \<Rightarrow> world \<Rightarrow> Query option \<Rightarrow>
   (SearchResults option \<times> error option) \<times> world \<times> event list" where
  "Search env ctxDone w qry =
     (case qry of
        None \<Rightarrow>
          ((None, Some (NewAPIError ErrorTypeInvalidQuery ''query cannot be nil'' None)), w, [])
      | Some q \<Rightarrow>
          (case retryWithBackoff (options (client w)) ctxDone (searchAttempt env q)
                  (w\<lparr>result := None\<rparr>) of
             (err, w', ev) \<Rightarrow>
               if err \<noteq> None then ((None, err), w', ev)
               else ((result w', None), w', ev)))"

subsection \<open>The query builder\<close>

record QueryBuilder =
  searchTerms :: "string list"
  categories :: "string list"
  authors :: "string list"
  titles :: "string list"
  abstracts :: "string list"
  dateFrom :: "string option"
  dateTo :: "string option"
  sortBy :: string
  sortOrder :: string
  maxResults :: int
  limit :: int
  start :: int
  idList :: "string list"
  errors :: "error list"

text \<open>\<open>Client.NewQuery\<close>: an empty builder with the default page size and sorting.\<close>

definition NewQuery :: QueryBuilder where
  "NewQuery =
     \<lparr>searchTerms = [], categories = [], authors = [], titles = [], abstracts = [],
      dateFrom = None, dateTo = None, sortBy = ''relevance'', sortOrder = ''descending'',
      maxResults = defaultMaxResults, limit = 0, start = 0, idList = [], errors = []\<rparr>"

text \<open>
  The four filter blocks of \<open>buildSearchQuery\<close> differ only in the field prefix and
  the list they read; \<open>filterPart\<close> is one such block, giving the parts it appends.
\<close>

definition filterPart :: "string \<Rightarrow> string list \<Rightarrow> string list" where
  "filterPart prefix items =
     (if length items > 0 then
        (let queries = map (\<lambda>x. prefix @ x) items in
         if length queries = 1 then [queries ! 0]
         else [''('' @ strings_Join queries '' OR '' @ '')''])
      else [])"

definition buildSearchQuery :: "QueryBuilder \<Rightarrow> string" where
  "buildSearchQuery qb =
     (let termPart =
            (if length (searchTerms qb) > 0 then
               (let searchQuery = strings_Join (searchTerms qb) '' '' in
                if searchQuery \<noteq> '''' then [''('' @ searchQuery @ '')''] else [])
             else []);
          queryParts = termPart @ filterPart ''cat:'' (categories qb)
                         @ filterPart ''au:'' (authors qb)
                         @ filterPart ''ti:'' (titles qb)
                         @ filterPart ''abs:'' (abstracts qb)
      in strings_Join queryParts '' AND '')"

definition buildQuery :: "QueryBuilder \<Rightarrow> Query option \<times> error option" where
  "buildQuery qb =
     (if length (errors qb) > 0 then (None, Some (errors qb ! 0))
      else
        (let qry = \<lparr>SearchQuery = '''', IDList = [], Start = start qb,
                      MaxResults = maxResults qb, Limit = limit qb, SortBy = sortBy qb,
                      SortOrder = sortOrder qb, SubmittedDateFrom = dateFrom qb,
                      SubmittedDateTo = dateTo qb\<rparr>
         in if length (idList qb) > 0 then (Some (qry\<lparr>IDList := idList qb\<rparr>), None)
            else
              (let searchQuery = buildSearchQuery qb in
               if searchQuery = '''' \<and> length (idList qb) = 0 then
                 (None, Some (NewAPIError ErrorTypeInvalidQuery
                                ''either search query or ID list must be provided'' None))
               else (Some (qry\<lparr>SearchQuery := searchQuery\<rparr>), None))))"

definition Execute ::
  "(nat \<Rightarrow> attempt_env) \<Rightarrow> (int \<Rightarrow> error option) \<Rightarrow> world \<Rightarrow> QueryBuilder \<Rightarrow>
   (SearchResults option \<times> error option) \<times> world \<times> event list" where
  "Execute env ctxDone w qb =
     (case buildQuery qb of
        (qry, Some err) \<Rightarrow> ((None, Some err), w, [])
      | (qry, None) \<Rightarrow> Search env ctxDone w qry)"

section \<open>Notions used in the statements\<close>

text \<open>
  The number of results a request asks the server for (\<open>max_results\<close> as
  \<open>buildQueryParams\<close> sets it).
\<close>

definition requestedResults :: "Query \<Rightarrow> int" where
  "requestedResults nq = (if MaxResults nq \<le> 0 then defaultMaxResults else MaxResults nq)"

text \<open>
  A page after which the server still has items, as \<open>HasMoreData\<close> reads it: the
  total count is unknown (not positive) or lies beyond the end of the page.
\<close>

definition moreAvailable :: "SearchResults \<Rightarrow> bool" where
  "moreAvailable r \<longleftrightarrow>
     \<not> (TotalCount r > 0 \<and> int64 (StartIndex r + int (length (Papers r))) \<ge> TotalCount r)"

text \<open>
  A fetcher that always returns a full page: it never fails, returns as many papers
  as the request asks for, and reports that more are available.
\<close>

definition fullPages :: "fetcher \<Rightarrow> bool" where
  "fullPages f \<longleftrightarrow>
     (\<forall>nq. \<exists>r. f nq = (Some r, None) \<and> int (length (Papers r)) = requestedResults nq
              \<and> moreAvailable r)"

text \<open>
  The invariant of an iteration under a total-item limit against such a fetcher:
  either nothing has been fetched yet, or the machine is \<open>Ready\<close> on a non-empty
  page, the cursor lies within the page, the count of consumed items is within the
  limit, and the page is a whole one unless the rest of it reaches the limit.
\<close>

definition limitInv :: "Query \<Rightarrow> State \<Rightarrow> bool" where
  "limitInv q s =
     (case Results s of
        None \<Rightarrow> s = initialState
      | Some r \<Rightarrow>
          Current s = StateReady \<and> 0 < length (Papers r) \<and> int (length (Papers r)) < 2 ^ 63
          \<and> 0 \<le> CurrentIndex s \<and> CurrentIndex s \<le> int (length (Papers r))
          \<and> 0 \<le> TotalFetched s \<and> TotalFetched s \<le> Limit q \<and> moreAvailable r
          \<and> (MaxResults q \<le> int (length (Papers r))
               \<or> Limit q \<le> TotalFetched s + (int (length (Papers r)) - CurrentIndex s)))"

section \<open>Concrete inputs\<close>

text \<open>
  A store holding one query at address 0, two papers, a fetcher that always returns
  a full page of the first paper, and a fetcher that always returns the one-paper
  result set of a search with a single match.
\<close>

definition paperA :: Paper where
  "paperA = \<lparr>ID = ''1234.5678v1'', Title = ''Test Paper 1''\<rparr>"

definition limitedQuery :: Query where
  "limitedQuery =
     \<lparr>SearchQuery = ''test'', IDList = [], Start = 0, MaxResults = 2, Limit = 3,
      SortBy = '''', SortOrder = '''', SubmittedDateFrom = None, SubmittedDateTo = None\<rparr>"

definition plainQuery :: Query where
  "plainQuery =
     \<lparr>SearchQuery = ''test'', IDList = [], Start = 40, MaxResults = 10, Limit = 0,
      SortBy = '''', SortOrder = '''', SubmittedDateFrom = None, SubmittedDateTo = None\<rparr>"

definition emptyQuery :: Query where
  "emptyQuery =
     \<lparr>SearchQuery = '''', IDList = [], Start = 0, MaxResults = 1, Limit = 0,
      SortBy = '''', SortOrder = '''', SubmittedDateFrom = None, SubmittedDateTo = None\<rparr>"

definition storeOf :: "Query \<Rightarrow> store" where
  "storeOf q = (\<lambda>a. if a = 0 then Some q else None)"

definition fullPageFetcher :: fetcher where
  "fullPageFetcher nq =
     (Some \<lparr>Papers = replicate (nat (requestedResults nq)) paperA, TotalCount = 0,
            StartIndex = Start nq, ItemsPerPage = requestedResults nq\<rparr>, None)"

definition singleMatch :: SearchResults where
  "singleMatch = \<lparr>Papers = [paperA], TotalCount = 1, StartIndex = 0, ItemsPerPage = 1\<rparr>"

definition singleMatchFetcher :: fetcher where
  "singleMatchFetcher nq = (Some singleMatch, None)"

definition networkError :: error where
  "networkError =
     NewAPIError ErrorTypeNetwork ''failed to make request''
       (Some (OtherError ''connection refused'' None))"

definition failingFetcher :: fetcher where
  "failingFetcher nq = (None, Some networkError)"

text \<open>
  Two failures as \<open>Search\<close> produces them, closures over a call counter that fail
  on every call, a context that is never done, and a server that answers every
  request with status 200 and a one-paper feed.
\<close>

definition throttled :: error where
  "throttled =
     NewAPIError ErrorTypeRateLimit ''rate limit exceeded''
       (Some (OtherError ''rate limit exceeded, status 429'' None))"

definition parseFailure :: error where
  "parseFailure =
     NewAPIError ErrorTypeParsing ''failed to parse response''
       (Some (OtherError ''failed to parse XML response'' None))"

definition alwaysThrottled :: "nat \<Rightarrow> error option \<times> nat" where
  "alwaysThrottled n = (Some throttled, Suc n)"

definition throttledThenMalformed :: "nat \<Rightarrow> error option \<times> nat" where
  "throttledThenMalformed n = (if n = 0 then Some throttled else Some parseFailure, Suc n)"

definition neverDone :: "int \<Rightarrow> error option" where
  "neverDone a = None"

definition okServer :: "nat \<Rightarrow> attempt_env" where
  "okServer i =
     \<lparr>newRequestErr = None, rlNow = 5000000000, rlSince = 5000000100, rlCtxDone = None,
      doErr = None, statusCode = 200, readErr = None, parsed = Inr singleMatch\<rparr>"

definition freshWorld :: world where
  "freshWorld = \<lparr>client = NewClient, result = None, requests = [], tick = 0\<rparr>"

section \<open>Auxiliary facts\<close>

lemma int64_id: "int64_range x \<Longrightarrow> int64 x = x"
  by (simp add: int64_def int64_range_def)

lemmas iterator_defs =
  nextPaper_def pollActive_def yieldPaper_def NewIterator_def GetState_def Transition_def
  initialState_def deref_def storeOf_def needsMoreData_def HasMoreData_def
  CalculateStartIndex_def CalculateMaxResults_def int64_def Let_def TotalFetched_it_def

text \<open>
  Three calls of \<open>nextPaper\<close> on a fresh iterator over a search with one match.
\<close>

lemma single_match_run:
  "polls (storeOf plainQuery) (replicate 3 singleMatchFetcher) (NewIterator (Some 0)) =
     ([Returned (Some paperA) None, Returned None None, Returned (Some paperA) None],
      \<lparr>query = Some 0,
       stateManager = \<lparr>Current = StateReady, CurrentPage = 2, CurrentIndex = 1,
                       TotalFetched = 2, Error = None, Results = Some singleMatch\<rparr>\<rparr>,
      [plainQuery\<lparr>Start := 0\<rparr>])"
  by (simp add: numeral_3_eq_3 iterator_defs plainQuery_def singleMatchFetcher_def singleMatch_def)

section \<open>The paginator's next offset\<close>

text \<open>
  Claim C6, as stated: the next offset is the prior outcome's start offset plus its
  number of items, and 0 when there is no prior outcome, whatever the current page
  index. The second half fails: without a prior outcome \<open>CalculateStartIndex\<close>
  returns the page index times the page size, here 20 for page 2 of size 10.
\<close>

theorem CalculateStartIndex_counterexample:
  "CalculateStartIndex plainQuery 2 None = 20 \<and> CalculateStartIndex plainQuery 2 None \<noteq> 0"
  by (simp add: CalculateStartIndex_def plainQuery_def int64_def)

text \<open>
  Claim C6, amended: with a prior outcome the next offset is its start offset plus
  its number of items; without one it is the current page index times the
  configured page size, hence 0 for page index 0 (both in 64-bit arithmetic, exact
  whenever the value fits). In particular the first request of a fresh iterator
  starts at offset 0.
\<close>

theorem CalculateStartIndex_offsets:
  "(int64_range (StartIndex r + int (length (Papers r))) \<longrightarrow>
      CalculateStartIndex q currentPage (Some r) = StartIndex r + int (length (Papers r)))
   \<and> (int64_range (currentPage * MaxResults q) \<longrightarrow>
      CalculateStartIndex q currentPage None = currentPage * MaxResults q)
   \<and> CalculateStartIndex q 0 None = 0
   \<and> Start (nextQuery q initialState) = 0"
  by (simp add: CalculateStartIndex_def int64_id nextQuery_def initialState_def)
     (simp add: int64_def)

theorem CalculateStartIndex_offsets_witness:
  "int64_range (StartIndex singleMatch + int (length (Papers singleMatch)))
   \<and> CalculateStartIndex plainQuery 3 (Some singleMatch) = 1
   \<and> int64_range (3 * MaxResults plainQuery)
   \<and> CalculateStartIndex plainQuery 3 None = 30
   \<and> CalculateStartIndex plainQuery 0 None = 0
   \<and> Start (nextQuery plainQuery initialState) = 0"
  using CalculateStartIndex_offsets [where r = singleMatch and currentPage = 3 and q = plainQuery]
  by (simp add: int64_range_def singleMatch_def plainQuery_def)

section \<open>Consumption accounting\<close>

lemma TotalFetched_Apply:
  "TotalFetched (Apply a s) =
     (case a of ConsumeAction \<Rightarrow> int64 (TotalFetched s + 1) | FetchAction r e \<Rightarrow> TotalFetched s)"
  by (cases a) simp_all

lemma yieldPaper_TotalFetched:
  "yieldPaper q it c = (r, it', qs) \<Longrightarrow>
     TotalFetched_it it' =
       (if yielded r then int64 (TotalFetched_it it + 1) else TotalFetched_it it)"
  by (auto simp: yieldPaper_def TotalFetched_it_def GetState_def Transition_def Let_def
           split: option.splits if_splits)

lemma pollActive_TotalFetched:
  "pollActive f h it = (r, it', qs) \<Longrightarrow>
     TotalFetched_it it' =
       (if yielded r then int64 (TotalFetched_it it + 1) else TotalFetched_it it)"
  apply (simp add: pollActive_def Let_def split: option.splits if_splits prod.splits)
  apply (auto simp: TotalFetched_it_def GetState_def Transition_def dest!: yieldPaper_TotalFetched)
  done

lemma nextPaper_TotalFetched:
  "nextPaper f h it = (r, it', qs) \<Longrightarrow>
     TotalFetched_it it' =
       (if yielded r then int64 (TotalFetched_it it + 1) else TotalFetched_it it)"
  by (cases "Current (GetState it)")
     (auto simp: nextPaper_def Let_def dest: pollActive_TotalFetched)

lemma polls_TotalFetched:
  "polls h fs it = (rs, it', qs) \<Longrightarrow> int64_range (TotalFetched_it it) \<Longrightarrow>
   TotalFetched_it it + int (length fs) < 2 ^ 63 \<Longrightarrow>
   TotalFetched_it it' = TotalFetched_it it + int (length (filter yielded rs))"
proof (induction fs arbitrary: it rs qs it')
  case Nil
  then show ?case by simp
next
  case (Cons f fs)
  obtain r it1 qs1 where step: "nextPaper f h it = (r, it1, qs1)"
    by (cases "nextPaper f h it") auto
  obtain rs2 it2 qs2 where rest: "polls h fs it1 = (rs2, it2, qs2)"
    by (cases "polls h fs it1") auto
  from Cons.prems(1) step rest have eqs: "rs = r # rs2" "it' = it2"
    by auto
  have tf1: "TotalFetched_it it1 = (if yielded r then TotalFetched_it it + 1 else TotalFetched_it it)"
    using nextPaper_TotalFetched [OF step] Cons.prems(2,3)
    by (auto simp: int64_id int64_range_def)
  have "TotalFetched_it it2 = TotalFetched_it it1 + int (length (filter yielded rs2))"
    using Cons.IH [OF rest] tf1 Cons.prems(2,3) by (auto simp: int64_range_def)
  with tf1 eqs show ?case by simp
qed

text \<open>
  Claim C7: over any sequence of \<open>nextPaper\<close> calls \<open>TotalFetched\<close> grows by exactly
  the number of items yielded (so it equals that number on an iterator that started
  at 0); one call adds 1 when it yields and nothing otherwise; \<open>ConsumeAction\<close> adds
  exactly 1 and \<open>FetchAction\<close> leaves the count as it is. The counter is a 64-bit
  integer: the statement is for runs that keep it below \<open>2 ^ 63\<close>.
\<close>

theorem monotonic_consumption:
  assumes run: "polls h fs it = (rs, it', qs)"
    and r0: "int64_range (TotalFetched_it it)"
    and rn: "TotalFetched_it it + int (length fs) < 2 ^ 63"
    and s: "int64_range (TotalFetched s + 1)"
  shows "TotalFetched_it it' = TotalFetched_it it + int (length (filter yielded rs))
       \<and> (\<forall>f r it1 qs1. nextPaper f h it = (r, it1, qs1) \<and> fs \<noteq> [] \<longrightarrow>
             TotalFetched_it it1 = (if yielded r then TotalFetched_it it + 1 else TotalFetched_it it))
       \<and> TotalFetched (Apply ConsumeAction s) = TotalFetched s + 1
       \<and> TotalFetched (Apply (FetchAction res e) s) = TotalFetched s"
proof (intro conjI allI impI)
  show "TotalFetched_it it' = TotalFetched_it it + int (length (filter yielded rs))"
    using run r0 rn by (rule polls_TotalFetched)
next
  fix f r it1 qs1
  assume a: "nextPaper f h it = (r, it1, qs1) \<and> fs \<noteq> []"
  then have "1 \<le> int (length fs)" by (cases fs) simp_all
  with r0 rn have "int64_range (TotalFetched_it it + 1)"
    unfolding int64_range_def by linarith
  then show "TotalFetched_it it1 = (if yielded r then TotalFetched_it it + 1 else TotalFetched_it it)"
    using a nextPaper_TotalFetched [of f h it r it1 qs1] by (simp add: int64_id)
next
  show "TotalFetched (Apply ConsumeAction s) = TotalFetched s + 1"
    using s by (simp add: int64_id)
next
  show "TotalFetched (Apply (FetchAction res e) s) = TotalFetched s"
    by simp
qed

theorem monotonic_consumption_witness:
  "int64_range (TotalFetched_it (NewIterator (Some 0)))
   \<and> TotalFetched_it (NewIterator (Some 0)) + int (length (replicate 3 singleMatchFetcher)) < 2 ^ 63
   \<and> int64_range (TotalFetched initialState + 1)
   \<and> length (filter yielded
        [Returned (Some paperA) None, Returned None None, Returned (Some paperA) None]) = 2
   \<and> TotalFetched_it
        \<lparr>query = Some 0,
         stateManager = \<lparr>Current = StateReady, CurrentPage = 2, CurrentIndex = 1,
                         TotalFetched = 2, Error = None, Results = Some singleMatch\<rparr>\<rparr> = 0 + 2
   \<and> TotalFetched (Apply ConsumeAction initialState) = 0 + 1"
proof -
  have h: "int64_range (TotalFetched_it (NewIterator (Some 0)))"
    "TotalFetched_it (NewIterator (Some 0)) + int (length (replicate 3 singleMatchFetcher)) < 2 ^ 63"
    "int64_range (TotalFetched initialState + 1)"
    by (simp_all add: int64_range_def TotalFetched_it_def NewIterator_def GetState_def
          initialState_def)
  show ?thesis
    using monotonic_consumption [OF single_match_run h] h
    by (simp add: TotalFetched_it_def NewIterator_def GetState_def initialState_def)
qed

section \<open>The Failed phase\<close>

lemma nextPaper_StateError:
  "Current (GetState it) = StateError \<Longrightarrow>
     nextPaper f h it = (Returned None (Error (GetState it)), it, [])"
  by (simp add: nextPaper_def)

lemma polls_StateError:
  "Current (GetState it) = StateError \<Longrightarrow>
     polls h fs it = (replicate (length fs) (Returned None (Error (GetState it))), it, [])"
  by (induction fs) (simp_all add: nextPaper_StateError)

lemma needsMoreData_HasMoreData: "needsMoreData q s \<Longrightarrow> HasMoreData q s"
  by (auto simp: needsMoreData_def HasMoreData_def split: option.splits if_splits)

text \<open>
  Claim C8: when a call of \<open>nextPaper\<close> that needs a new page gets an error from the
  fetcher, it returns that error and leaves the machine in \<open>StateError\<close> with the
  error stored; every later call, whatever the fetcher would answer, returns the
  stored error, fetches nothing and leaves the iterator as it is.
\<close>

theorem failed_phase_absorbing:
  assumes "Current (GetState it) = StateInitial \<or> Current (GetState it) = StateReady"
    and "deref h (query it) = Some q"
    and "needsMoreData q (GetState it)"
    and "fetch (nextQuery q (GetState it)) = (res, Some e)"
    and "it' = Transition (FetchAction res (Some e)) it"
  shows "nextPaper fetch h it = (Returned None (Some e), it', [nextQuery q (GetState it)])
       \<and> Current (GetState it') = StateError \<and> Error (GetState it') = Some e
       \<and> polls h fs it' = (replicate (length fs) (Returned None (Some e)), it', [])"
proof -
  have st: "Current (GetState it') = StateError" "Error (GetState it') = Some e"
    using assms(5) by (simp_all add: GetState_def Transition_def)
  have "pollActive fetch h it = (Returned None (Some e), it', [nextQuery q (GetState it)])"
    using assms(2-5) needsMoreData_HasMoreData [OF assms(3)] st
    by (simp add: pollActive_def Let_def nextQuery_def)
  then have "nextPaper fetch h it = (Returned None (Some e), it', [nextQuery q (GetState it)])"
    using assms(1) by (auto simp: nextPaper_def Let_def)
  moreover have "polls h fs it' = (replicate (length fs) (Returned None (Some e)), it', [])"
    using polls_StateError [of it' h fs] st by simp
  ultimately show ?thesis using st by simp
qed

theorem failed_phase_absorbing_witness:
  "Current (GetState (NewIterator (Some 0))) = StateInitial
   \<and> deref (storeOf plainQuery) (query (NewIterator (Some 0))) = Some plainQuery
   \<and> needsMoreData plainQuery (GetState (NewIterator (Some 0)))
   \<and> failingFetcher (nextQuery plainQuery (GetState (NewIterator (Some 0)))) = (None, Some networkError)
   \<and> nextPaper failingFetcher (storeOf plainQuery) (NewIterator (Some 0)) =
       (Returned None (Some networkError),
        Transition (FetchAction None (Some networkError)) (NewIterator (Some 0)),
        [nextQuery plainQuery (GetState (NewIterator (Some 0)))])
   \<and> polls (storeOf plainQuery) (replicate 2 singleMatchFetcher)
        (Transition (FetchAction None (Some networkError)) (NewIterator (Some 0))) =
       (replicate 2 (Returned None (Some networkError)),
        Transition (FetchAction None (Some networkError)) (NewIterator (Some 0)), [])"
proof -
  have h: "Current (GetState (NewIterator (Some 0))) = StateInitial
      \<or> Current (GetState (NewIterator (Some 0))) = StateReady"
    "deref (storeOf plainQuery) (query (NewIterator (Some 0))) = Some plainQuery"
    "needsMoreData plainQuery (GetState (NewIterator (Some 0)))"
    "failingFetcher (nextQuery plainQuery (GetState (NewIterator (Some 0)))) = (None, Some networkError)"
    by (simp_all add: NewIterator_def GetState_def initialState_def deref_def storeOf_def
          needsMoreData_def failingFetcher_def)
  have c: "Current (GetState (NewIterator (Some 0))) = StateInitial"
    by (simp add: NewIterator_def GetState_def initialState_def)
  show ?thesis
    using failed_phase_absorbing
      [where fetch = failingFetcher and h = "storeOf plainQuery" and it = "NewIterator (Some 0)"
         and q = plainQuery and res = None and e = networkError
         and it' = "Transition (FetchAction None (Some networkError)) (NewIterator (Some 0))"
         and fs = "replicate 2 singleMatchFetcher"] h c
    by simp
qed

section \<open>A consumed window with no more data\<close>

text \<open>
  Claim C2 says that a call of \<open>nextPaper\<close> on a fully consumed window, when the
  paginator reports no more data, moves the machine to \<open>StateExhausted\<close>, and that
  every later call returns "no more items" without a state change. The code applies
  \<open>FetchAction\<close> with the consumed, non-empty window, and \<open>FetchAction.Apply\<close> answers
  a non-empty window with \<open>StateReady\<close>, cursor 0 and the page count increased: the
  call returns "no more items", but the machine is \<open>Ready\<close> again and the next call
  yields the first paper of the same window a second time.
\<close>

theorem consumed_window_polled_again:
  "(let h = storeOf plainQuery;
        it1 = \<lparr>query = Some 0,
               stateManager = \<lparr>Current = StateReady, CurrentPage = 1, CurrentIndex = 1,
                               TotalFetched = 1, Error = None, Results = Some singleMatch\<rparr>\<rparr>;
        it2 = \<lparr>query = Some 0,
               stateManager = \<lparr>Current = StateReady, CurrentPage = 2, CurrentIndex = 0,
                               TotalFetched = 1, Error = None, Results = Some singleMatch\<rparr>\<rparr>;
        it3 = \<lparr>query = Some 0,
               stateManager = \<lparr>Current = StateReady, CurrentPage = 2, CurrentIndex = 1,
                               TotalFetched = 2, Error = None, Results = Some singleMatch\<rparr>\<rparr>
    in nextPaper singleMatchFetcher h (NewIterator (Some 0)) =
         (Returned (Some paperA) None, it1, [plainQuery\<lparr>Start := 0\<rparr>])
       \<and> CurrentIndex (GetState it1) \<ge> int (length (Papers singleMatch))
       \<and> \<not> HasMoreData plainQuery (GetState it1)
       \<and> nextPaper singleMatchFetcher h it1 = (Returned None None, it2, [])
       \<and> Current (GetState it2) \<noteq> StateExhausted
       \<and> nextPaper singleMatchFetcher h it2 = (Returned (Some paperA) None, it3, []))"
  by (simp add: iterator_defs plainQuery_def singleMatchFetcher_def singleMatch_def)

section \<open>Limit enforcement\<close>

lemma yieldPaper_yields:
  assumes "Results (GetState it) = Some r"
    and "0 \<le> CurrentIndex (GetState it)"
    and "CurrentIndex (GetState it) < int (length (Papers r))"
    and "TotalFetched (GetState it) < Limit q"
  shows "yieldPaper q it c =
           (Returned (Some (Papers r ! nat (CurrentIndex (GetState it)))) None,
            Transition ConsumeAction it, c)"
  using assms by (simp add: yieldPaper_def Let_def)

lemma limitInv_consume:
  assumes "limitInv q (GetState it)" and "Results (GetState it) = Some r"
    and "CurrentIndex (GetState it) < int (length (Papers r))"
    and "TotalFetched (GetState it) < Limit q" and "Limit q < 2 ^ 63"
  shows "limitInv q (GetState (Transition ConsumeAction it))
       \<and> TotalFetched_it (Transition ConsumeAction it) = TotalFetched_it it + 1"
  using assms
  by (auto simp: limitInv_def GetState_def Transition_def TotalFetched_it_def int64_id int64_range_def)

lemma fetched_page:
  assumes full: "fullPages f"
    and L: "0 < Limit q" "Limit q < 2 ^ 63" and M: "int64_range (MaxResults q)"
    and tf: "0 \<le> TotalFetched s" "TotalFetched s < Limit q"
  shows "\<exists>r. f (nextQuery q s) = (Some r, None) \<and> 0 < length (Papers r)
            \<and> int (length (Papers r)) < 2 ^ 63 \<and> moreAvailable r
            \<and> (MaxResults q \<le> int (length (Papers r))
                 \<or> Limit q \<le> TotalFetched s + int (length (Papers r)))"
proof -
  from full obtain r where r: "f (nextQuery q s) = (Some r, None)"
      "int (length (Papers r)) = requestedResults (nextQuery q s)" "moreAvailable r"
    unfolding fullPages_def by blast
  have rem: "int64 (Limit q - TotalFetched s) = Limit q - TotalFetched s"
    using L tf by (intro int64_id) (simp add: int64_range_def)
  have "requestedResults (nextQuery q s) =
          (if MaxResults q \<le> 0 then 500
           else if Limit q - TotalFetched s < MaxResults q then Limit q - TotalFetched s
           else MaxResults q)"
    using L tf rem
    by (auto simp: requestedResults_def nextQuery_def CalculateMaxResults_def Let_def
                   defaultMaxResults_def)
  with r(2) have len: "int (length (Papers r)) =
          (if MaxResults q \<le> 0 then 500
           else if Limit q - TotalFetched s < MaxResults q then Limit q - TotalFetched s
           else MaxResults q)" by simp
  have "0 < int (length (Papers r))" using len L tf by (auto split: if_splits)
  moreover have "int (length (Papers r)) < 2 ^ 63"
    using len L tf M by (auto simp: int64_range_def split: if_splits)
  moreover have "MaxResults q \<le> int (length (Papers r))
                 \<or> Limit q \<le> TotalFetched s + int (length (Papers r))"
    using len by (auto split: if_splits)
  ultimately show ?thesis using r(1,3) by auto
qed

lemma pollActive_fetch_yield:
  assumes q: "deref h (query it) = Some q"
    and need: "needsMoreData q (GetState it)"
    and full: "fullPages f"
    and L: "0 < Limit q" "Limit q < 2 ^ 63" and M: "int64_range (MaxResults q)"
    and tf: "0 \<le> TotalFetched (GetState it)" "TotalFetched (GetState it) < Limit q"
  shows "\<exists>p it'. pollActive f h it = (Returned (Some p) None, it', [nextQuery q (GetState it)])
           \<and> limitInv q (GetState it') \<and> TotalFetched_it it' = TotalFetched_it it + 1
           \<and> query it' = query it"
proof -
  let ?s = "GetState it"
  from fetched_page [OF full L M tf] obtain r where r:
    "f (nextQuery q ?s) = (Some r, None)" "0 < length (Papers r)"
    "int (length (Papers r)) < 2 ^ 63" "moreAvailable r"
    "MaxResults q \<le> int (length (Papers r)) \<or> Limit q \<le> TotalFetched ?s + int (length (Papers r))"
    by blast
  let ?it1 = "Transition (FetchAction (Some r) None) it"
  have s1: "GetState ?it1 =
      \<lparr>Current = StateReady, CurrentPage = int64 (CurrentPage ?s + 1), CurrentIndex = 0,
       TotalFetched = TotalFetched ?s, Error = None, Results = Some r\<rparr>"
    using r(2) by (simp add: GetState_def Transition_def)
  have inv1: "limitInv q (GetState ?it1)"
    using r tf by (simp add: s1 limitInv_def)
  have y: "yieldPaper q ?it1 [nextQuery q ?s] =
             (Returned (Some (Papers r ! nat (CurrentIndex (GetState ?it1)))) None,
              Transition ConsumeAction ?it1, [nextQuery q ?s])"
    by (rule yieldPaper_yields [where r = r]) (use s1 r tf in simp_all)
  have "pollActive f h it = yieldPaper q ?it1 [nextQuery q ?s]"
    using q need needsMoreData_HasMoreData [OF need] r(1) s1
    by (simp add: pollActive_def Let_def nextQuery_def)
  moreover have "limitInv q (GetState (Transition ConsumeAction ?it1))
       \<and> TotalFetched_it (Transition ConsumeAction ?it1) = TotalFetched_it ?it1 + 1"
    by (rule limitInv_consume [where r = r]) (use inv1 s1 r tf L in simp_all)
  moreover have "TotalFetched_it ?it1 = TotalFetched_it it"
    by (simp add: TotalFetched_it_def s1)
  moreover have "query (Transition ConsumeAction ?it1) = query it"
    by (simp add: Transition_def)
  ultimately show ?thesis using y by auto
qed

lemma pollActive_within_limit:
  assumes q: "deref h (query it) = Some q"
    and full: "fullPages f"
    and L: "0 < Limit q" "Limit q < 2 ^ 63" and M: "int64_range (MaxResults q)"
    and inv: "limitInv q (GetState it)"
    and tf: "TotalFetched (GetState it) < Limit q"
  shows "\<exists>p it' qs. pollActive f h it = (Returned (Some p) None, it', qs)
           \<and> limitInv q (GetState it') \<and> TotalFetched_it it' = TotalFetched_it it + 1
           \<and> query it' = query it"
proof (cases "needsMoreData q (GetState it)")
  case True
  have "0 \<le> TotalFetched (GetState it)"
    using inv by (auto simp: limitInv_def initialState_def split: option.splits)
  from pollActive_fetch_yield [OF q True full L M this tf] show ?thesis by blast
next
  case False
  then obtain r where r: "Results (GetState it) = Some r"
      "CurrentIndex (GetState it) < int (length (Papers r)) \<or> \<not> HasMoreData q (GetState it)"
    by (auto simp: needsMoreData_def split: option.splits if_splits)
  have hm: "CurrentIndex (GetState it) = int (length (Papers r)) \<Longrightarrow> HasMoreData q (GetState it)"
    using inv r(1) tf L by (auto simp: limitInv_def HasMoreData_def moreAvailable_def Let_def)
  have le: "CurrentIndex (GetState it) \<le> int (length (Papers r))" "0 \<le> CurrentIndex (GetState it)"
    using r(1) inv by (auto simp: limitInv_def)
  have idx: "CurrentIndex (GetState it) < int (length (Papers r))" "0 \<le> CurrentIndex (GetState it)"
    using r(2) hm le by (cases "CurrentIndex (GetState it) = int (length (Papers r))"; simp)+
  have "pollActive f h it = yieldPaper q it []"
    using q False by (simp add: pollActive_def Let_def)
  also have "\<dots> = (Returned (Some (Papers r ! nat (CurrentIndex (GetState it)))) None,
                   Transition ConsumeAction it, [])"
    by (rule yieldPaper_yields [OF r(1) idx(2) idx(1) tf])
  finally show ?thesis
    using limitInv_consume [OF inv r(1) idx(1) tf L(2)] by (simp add: Transition_def)
qed

lemma pollActive_at_limit:
  assumes q: "deref h (query it) = Some q"
    and L: "0 < Limit q"
    and inv: "limitInv q (GetState it)"
    and tf: "TotalFetched (GetState it) = Limit q"
  shows "\<exists>it'. pollActive f h it = (Returned None None, it', [])
           \<and> limitInv q (GetState it') \<and> TotalFetched_it it' = TotalFetched_it it
           \<and> query it' = query it"
proof -
  from inv tf L obtain r where r: "Results (GetState it) = Some r"
    by (auto simp: limitInv_def initialState_def split: option.splits)
  have nm: "\<not> HasMoreData q (GetState it)" "\<not> needsMoreData q (GetState it)"
    using r tf L by (auto simp: HasMoreData_def needsMoreData_def)
  let ?it1 = "Transition (FetchAction (Results (GetState it)) None) it"
  have "pollActive f h it = yieldPaper q it []"
    using q nm by (simp add: pollActive_def Let_def)
  also have "\<dots> = (Returned None None, ?it1, [])"
    using r tf L by (simp add: yieldPaper_def Let_def)
  finally have "pollActive f h it = (Returned None None, ?it1, [])" .
  moreover have "limitInv q (GetState ?it1)"
    using inv r tf by (auto simp: limitInv_def GetState_def Transition_def)
  moreover have "TotalFetched_it ?it1 = TotalFetched_it it" "query ?it1 = query it"
    by (simp_all add: TotalFetched_it_def GetState_def Transition_def)
  ultimately show ?thesis by blast
qed

lemma limitInv_active:
  "limitInv q s \<Longrightarrow> Current s = StateInitial \<or> Current s = StateReady"
  by (auto simp: limitInv_def initialState_def split: option.splits)

lemma nextPaper_active:
  "Current (GetState it) = StateInitial \<or> Current (GetState it) = StateReady \<Longrightarrow>
     nextPaper f h it = pollActive f h it"
  by (auto simp: nextPaper_def)

lemma polls_append:
  "polls h (fs1 @ fs2) it =
     (case polls h fs1 it of
        (rs1, it1, qs1) \<Rightarrow>
          (case polls h fs2 it1 of
             (rs2, it2, qs2) \<Rightarrow> (rs1 @ rs2, it2, qs1 @ qs2)))"
  by (induction fs1 arbitrary: it) (auto split: prod.splits)

lemma polls_within_limit:
  assumes L: "0 < Limit q" "Limit q < 2 ^ 63" and M: "int64_range (MaxResults q)"
  shows "deref h (query it) = Some q \<Longrightarrow> \<forall>f\<in>set fs. fullPages f \<Longrightarrow>
         limitInv q (GetState it) \<Longrightarrow> TotalFetched_it it + int (length fs) \<le> Limit q \<Longrightarrow>
         \<exists>rs it' qs. polls h fs it = (rs, it', qs) \<and> list_all yielded rs
            \<and> length rs = length fs \<and> limitInv q (GetState it')
            \<and> TotalFetched_it it' = TotalFetched_it it + int (length fs)
            \<and> query it' = query it"
proof (induction fs arbitrary: it)
  case Nil
  then show ?case by simp
next
  case (Cons f fs)
  have tf: "TotalFetched (GetState it) < Limit q"
    using Cons.prems(4) by (simp add: TotalFetched_it_def)
  have "fullPages f" using Cons.prems(2) by simp
  from pollActive_within_limit [OF Cons.prems(1) this L M Cons.prems(3) tf]
  obtain p it1 qs1 where step: "pollActive f h it = (Returned (Some p) None, it1, qs1)"
      "limitInv q (GetState it1)" "TotalFetched_it it1 = TotalFetched_it it + 1"
      "query it1 = query it"
    by blast
  have np: "nextPaper f h it = (Returned (Some p) None, it1, qs1)"
    using step(1) nextPaper_active [OF limitInv_active [OF Cons.prems(3)]] by simp
  have "\<exists>rs it' qs. polls h fs it1 = (rs, it', qs) \<and> list_all yielded rs
            \<and> length rs = length fs \<and> limitInv q (GetState it')
            \<and> TotalFetched_it it' = TotalFetched_it it1 + int (length fs)
            \<and> query it' = query it1"
    by (rule Cons.IH) (use Cons.prems step in simp_all)
  then obtain rs it2 qs2 where rest: "polls h fs it1 = (rs, it2, qs2)" "list_all yielded rs"
      "length rs = length fs" "limitInv q (GetState it2)"
      "TotalFetched_it it2 = TotalFetched_it it1 + int (length fs)" "query it2 = query it1"
    by blast
  show ?case using np rest step(3,4) by simp
qed

lemma polls_at_limit:
  assumes L: "0 < Limit q"
  shows "deref h (query it) = Some q \<Longrightarrow> limitInv q (GetState it) \<Longrightarrow>
         TotalFetched_it it = Limit q \<Longrightarrow>
         \<exists>it'. polls h fs it = (replicate (length fs) (Returned None None), it', [])
            \<and> TotalFetched_it it' = Limit q"
proof (induction fs arbitrary: it)
  case Nil
  then show ?case by simp
next
  case (Cons f fs)
  have tf: "TotalFetched (GetState it) = Limit q"
    using Cons.prems(3) by (simp add: TotalFetched_it_def)
  from pollActive_at_limit [OF Cons.prems(1) L Cons.prems(2) tf, of f]
  obtain it1 where step: "pollActive f h it = (Returned None None, it1, [])"
      "limitInv q (GetState it1)" "TotalFetched_it it1 = TotalFetched_it it"
      "query it1 = query it"
    by blast
  have np: "nextPaper f h it = (Returned None None, it1, [])"
    using step(1) nextPaper_active [OF limitInv_active [OF Cons.prems(2)]] by simp
  have "\<exists>it'. polls h fs it1 = (replicate (length fs) (Returned None None), it', [])
            \<and> TotalFetched_it it' = Limit q"
    by (rule Cons.IH) (use Cons.prems step in simp_all)
  then show ?case using np by auto
qed

lemma filter_yielded_all: "list_all yielded rs \<Longrightarrow> filter yielded rs = rs"
  by (induction rs) auto

text \<open>
  Claim C3: with a positive total-item limit \<open>L\<close> and fetchers that always return
  full pages, the first \<open>L\<close> calls of \<open>nextPaper\<close> on a fresh iterator each yield an
  item, every further call returns "no more items", exactly \<open>L\<close> items are yielded
  in all, and \<open>TotalFetched\<close> is \<open>L\<close> afterwards. \<open>Limit\<close> and \<open>MaxResults\<close> are
  64-bit integers.
\<close>

theorem limit_enforcement:
  assumes q: "deref h p = Some q"
    and L: "0 < Limit q" "Limit q < 2 ^ 63" and M: "int64_range (MaxResults q)"
    and full: "\<forall>f\<in>set fs. fullPages f"
    and len: "nat (Limit q) \<le> length fs"
    and run: "polls h fs (NewIterator p) = (rs, it', qs)"
  shows "list_all yielded (take (nat (Limit q)) rs)
       \<and> drop (nat (Limit q)) rs = replicate (length fs - nat (Limit q)) (Returned None None)
       \<and> length (filter yielded rs) = nat (Limit q)
       \<and> TotalFetched_it it' = Limit q"
proof -
  let ?n = "nat (Limit q)"
  let ?it = "NewIterator p"
  have fs: "fs = take ?n fs @ drop ?n fs" by simp
  have q': "deref h (query ?it) = Some q" using q by (simp add: NewIterator_def)
  have inv0: "limitInv q (GetState ?it)"
    by (simp add: limitInv_def NewIterator_def GetState_def initialState_def)
  have tf0: "TotalFetched_it ?it + int (length (take ?n fs)) \<le> Limit q"
    using len L by (simp add: TotalFetched_it_def NewIterator_def GetState_def initialState_def)
  have full1: "\<forall>f\<in>set (take ?n fs). fullPages f"
    using full by (meson in_set_takeD)
  from polls_within_limit [OF L M q' full1 inv0 tf0]
  obtain rs1 it1 qs1 where p1: "polls h (take ?n fs) ?it = (rs1, it1, qs1)"
      "list_all yielded rs1" "length rs1 = length (take ?n fs)" "limitInv q (GetState it1)"
      "TotalFetched_it it1 = TotalFetched_it ?it + int (length (take ?n fs))"
      "query it1 = query ?it"
    by blast
  have tf1: "TotalFetched_it it1 = Limit q"
    using p1(5) len L by (simp add: TotalFetched_it_def NewIterator_def GetState_def initialState_def)
  have q1: "deref h (query it1) = Some q" using p1(6) q' by simp
  from polls_at_limit [OF L(1) q1 p1(4) tf1, of "drop ?n fs"]
  obtain it2 where p2:
      "polls h (drop ?n fs) it1 = (replicate (length (drop ?n fs)) (Returned None None), it2, [])"
      "TotalFetched_it it2 = Limit q"
    by blast
  have "polls h fs ?it = (rs1 @ replicate (length (drop ?n fs)) (Returned None None), it2, qs1 @ [])"
    using polls_append [of h "take ?n fs" "drop ?n fs" ?it] p1(1) p2(1) by simp
  with run have rs: "rs = rs1 @ replicate (length fs - ?n) (Returned None None)" "it' = it2"
    by simp_all
  have l1: "length rs1 = ?n" using p1(3) len by simp
  have "filter yielded rs = rs1"
    using rs(1) filter_yielded_all [OF p1(2)] by simp
  then show ?thesis using rs l1 p1(2) p2(2) by simp
qed

lemma fullPageFetcher_full: "fullPages fullPageFetcher"
  by (simp add: fullPages_def fullPageFetcher_def requestedResults_def moreAvailable_def
        defaultMaxResults_def)

theorem limit_enforcement_witness:
  "(case polls (storeOf limitedQuery) (replicate 5 fullPageFetcher) (NewIterator (Some 0)) of
      (rs, it', qs) \<Rightarrow>
        list_all yielded (take 3 rs) \<and> drop 3 rs = replicate 2 (Returned None None)
        \<and> length (filter yielded rs) = 3 \<and> TotalFetched_it it' = 3)"
proof -
  obtain rs it' qs where run:
    "polls (storeOf limitedQuery) (replicate 5 fullPageFetcher) (NewIterator (Some 0)) = (rs, it', qs)"
    by (cases "polls (storeOf limitedQuery) (replicate 5 fullPageFetcher) (NewIterator (Some 0))")
  have "deref (storeOf limitedQuery) (Some 0) = Some limitedQuery"
    by (simp add: deref_def storeOf_def)
  moreover have "0 < Limit limitedQuery" "Limit limitedQuery < 2 ^ 63"
    "int64_range (MaxResults limitedQuery)"
    by (simp_all add: limitedQuery_def int64_range_def)
  moreover have "\<forall>f\<in>set (replicate 5 fullPageFetcher). fullPages f"
    by (simp add: fullPageFetcher_full)
  moreover have "nat (Limit limitedQuery) \<le> length (replicate 5 fullPageFetcher)"
    by (simp add: limitedQuery_def)
  ultimately show ?thesis
    using limit_enforcement [OF _ _ _ _ _ _ run] run
    by (simp add: limitedQuery_def)
qed

section \<open>Reset and the shared query\<close>

text \<open>
  Claim C10: \<open>Reset\<close> puts the iterator's own state machine back to the initial
  state and also stores 0 in the \<open>Start\<close> field of the \<open>Query\<close> the iterator points
  to. That \<open>Query\<close> is the caller's, and an iterator made by \<open>WithContext\<close> points to
  it too: after a \<open>Reset\<close> of either iterator, the query read through the caller's
  address or through the other iterator's pointer has \<open>Start = 0\<close>. No other
  address of the store changes.
\<close>

theorem Reset_shared_query:
  assumes "query it = Some a" and "h a = Some q"
  shows "(case Reset h it of
            (h', it') \<Rightarrow>
              GetState it' = initialState \<and> h' a = Some (q\<lparr>Start := 0\<rparr>)
              \<and> deref h' (query (WithContext it)) = Some (q\<lparr>Start := 0\<rparr>)
              \<and> (\<forall>b. b \<noteq> a \<longrightarrow> h' b = h b))
       \<and> (case Reset h (WithContext it) of
            (h', it') \<Rightarrow>
              GetState it' = initialState \<and> h' a = Some (q\<lparr>Start := 0\<rparr>)
              \<and> deref h' (query it) = Some (q\<lparr>Start := 0\<rparr>)
              \<and> (\<forall>b. b \<noteq> a \<longrightarrow> h' b = h b))"
  using assms by (simp add: Reset_def WithContext_def GetState_def deref_def Let_def)

theorem Reset_shared_query_witness:
  "query (NewIterator (Some 0)) = Some 0 \<and> storeOf plainQuery 0 = Some plainQuery
   \<and> Start plainQuery = 40
   \<and> deref (fst (Reset (storeOf plainQuery) (WithContext (NewIterator (Some 0)))))
        (query (NewIterator (Some 0))) = Some (plainQuery\<lparr>Start := 0\<rparr>)
   \<and> deref (fst (Reset (storeOf plainQuery) (NewIterator (Some 0))))
        (query (WithContext (NewIterator (Some 0)))) = Some (plainQuery\<lparr>Start := 0\<rparr>)"
  using Reset_shared_query [of "NewIterator (Some 0)" 0 "storeOf plainQuery" plainQuery]
  by (simp add: NewIterator_def storeOf_def plainQuery_def split: prod.splits)

section \<open>The rate limiter\<close>

text \<open>
  Claim C1 says that \<open>applyRateLimit\<close> returns without waiting when the time since
  the previously recorded request is at least the minimum interval, and otherwise
  waits for the interval minus that time. The code overwrites \<open>lastRequest\<close> with the
  current time before it computes \<open>elapsed\<close>, so \<open>elapsed\<close> is the time between its own
  two clock readings, and the previous timestamp is never read. A client whose last
  request was 5 seconds ago, with an interval of 1 second, still waits for the
  interval (less the 100 nanoseconds between the two readings).
\<close>

theorem rate_limiter_ignores_previous_request:
  "lastRequest NewClient = 0 \<and> RateLimit (options NewClient) = 1000000000
   \<and> applyRateLimit NewClient 5000000000 5000000100 None =
       (None, NewClient\<lparr>lastRequest := 5000000000\<rparr>, Waited 999999900)"
  by (simp add: applyRateLimit_def NewClient_def DefaultClientOptions_def)

lemma applyRateLimit_previous_irrelevant:
  "applyRateLimit (c\<lparr>lastRequest := t\<rparr>) now since ctxDone = applyRateLimit c now since ctxDone"
  by (simp add: applyRateLimit_def)

section \<open>The retry coordinator\<close>

lemma retryLoop_done:
  "\<not> attempt < RetryAttempts opts \<Longrightarrow> retryLoop opts ctxDone fn attempt lastErr w = (lastErr, w, [])"
  by (subst retryLoop.simps) simp

lemma retryLoop_success:
  "attempt < RetryAttempts opts \<Longrightarrow> fn w = (None, w') \<Longrightarrow>
     retryLoop opts ctxDone fn attempt lastErr w = (None, w', [Attempt attempt])"
  by (subst retryLoop.simps) simp

lemma retryLoop_fatal:
  "attempt < RetryAttempts opts \<Longrightarrow> fn w = (Some e, w') \<Longrightarrow> \<not> retryable e \<Longrightarrow>
     retryLoop opts ctxDone fn attempt lastErr w = (Some e, w', [Attempt attempt])"
  by (subst retryLoop.simps) (auto simp: retryable_def split: option.splits)

lemma retryLoop_cancelled:
  "attempt < RetryAttempts opts - 1 \<Longrightarrow> fn w = (Some e, w') \<Longrightarrow> retryable e \<Longrightarrow>
   ctxDone attempt = Some cerr \<Longrightarrow>
     retryLoop opts ctxDone fn attempt lastErr w =
       (Some cerr, w', [Attempt attempt, Cancelled (if attempt \<noteq> 0 then RetryDelay opts else 0)])"
  by (subst retryLoop.simps) (auto simp: retryable_def split: option.splits)

lemma retryLoop_wait:
  "attempt < RetryAttempts opts - 1 \<Longrightarrow> fn w = (Some e, w') \<Longrightarrow> retryable e \<Longrightarrow>
   ctxDone attempt = None \<Longrightarrow>
     retryLoop opts ctxDone fn attempt lastErr w =
       (case retryLoop opts ctxDone fn (attempt + 1) (Some e) w' of
          (r, w'', ev) \<Rightarrow>
            (r, w'', Attempt attempt # Wait (if attempt \<noteq> 0 then RetryDelay opts else 0) # ev))"
  by (subst retryLoop.simps) (auto simp: retryable_def split: option.splits)

lemma retryLoop_last:
  "attempt < RetryAttempts opts \<Longrightarrow> \<not> attempt < RetryAttempts opts - 1 \<Longrightarrow>
   fn w = (Some e, w') \<Longrightarrow> retryable e \<Longrightarrow>
     retryLoop opts ctxDone fn attempt lastErr w = (Some e, w', [Attempt attempt])"
  by (subst retryLoop.simps) (auto simp: retryable_def retryLoop_done split: option.splits)

lemma failsRetryably_0:
  "failsRetryably fn w 0 \<longleftrightarrow> (\<exists>e w'. fn w = (Some e, w') \<and> retryable e)"
  by (cases "fn w") (auto simp: failsRetryably_def split: option.splits)

lemma failsRetryably_Suc:
  "failsRetryably fn w (Suc j) = failsRetryably fn (snd (fn w)) j"
  by (simp add: failsRetryably_def)

lemma retryLoop_failed_prefix:
  "\<forall>j<k. failsRetryably fn w j \<Longrightarrow> \<forall>j<k. ctxDone (a + int j) = None \<Longrightarrow>
   a + int k < RetryAttempts opts \<Longrightarrow>
     retryLoop opts ctxDone fn a lastErr w =
       (case retryLoop opts ctxDone fn (a + int k)
               (if k = 0 then lastErr else fst (fn (afterCalls fn (k - 1) w)))
               (afterCalls fn k w) of
          (r, w'', ev) \<Rightarrow> (r, w'', failedAttempts opts a k @ ev))"
proof (induction k arbitrary: a lastErr w)
  case 0
  then show ?case by simp
next
  case (Suc k)
  from Suc.prems(1) have "failsRetryably fn w 0" by blast
  then obtain e w' where f: "fn w = (Some e, w')" "retryable e"
    by (auto simp: failsRetryably_0)
  have c: "ctxDone a = None" using Suc.prems(2) [rule_format, of 0] by simp
  have lt: "a < RetryAttempts opts - 1" using Suc.prems(3) by simp
  have step: "retryLoop opts ctxDone fn a lastErr w =
       (case retryLoop opts ctxDone fn (a + 1) (Some e) w' of
          (r, w'', ev) \<Rightarrow>
            (r, w'', Attempt a # Wait (if a \<noteq> 0 then RetryDelay opts else 0) # ev))"
    using lt f c by (rule retryLoop_wait)
  have p1: "\<forall>j<k. failsRetryably fn w' j"
    using Suc.prems(1) f(1) by (auto simp: failsRetryably_Suc dest: spec [where x = "Suc _"])
  have p2: "\<forall>j<k. ctxDone (a + 1 + int j) = None"
  proof (intro allI impI)
    fix j assume "j < k"
    then have "Suc j < Suc k" by simp
    with Suc.prems(2) have "ctxDone (a + int (Suc j)) = None" by blast
    moreover have "a + int (Suc j) = a + 1 + int j" by simp
    ultimately show "ctxDone (a + 1 + int j) = None" by (simp add: add.assoc)
  qed
  have p3: "a + 1 + int k < RetryAttempts opts" using Suc.prems(3) by simp
  have last: "(if k = 0 then Some e else fst (fn (afterCalls fn (k - 1) w')))
              = fst (fn (afterCalls fn (Suc k - 1) w))"
    using f(1) by (cases k) simp_all
  have idx: "a + 1 + int k = a + int (Suc k)" by simp
  show ?case
    unfolding step Suc.IH [OF p1 p2 p3, of "Some e"] last idx
    using f(1) by (simp split: prod.splits)
qed

lemma afterCalls_Suc: "afterCalls fn (Suc k) w = snd (fn (afterCalls fn k w))"
  by (induction k arbitrary: w) simp_all

lemma attempts_failedAttempts:
  "length (filter isAttempt (failedAttempts opts a k)) = k"
  by (induction k arbitrary: a) simp_all

lemma retryWithBackoff_stops:
  assumes k: "int k < RetryAttempts opts"
    and prev: "\<forall>j<k. failsRetryably fn w j"
    and nocancel: "\<forall>j<k. ctxDone (int j) = None"
    and e: "fst (fn (afterCalls fn k w)) = Some e"
    and stop: "\<not> retryable e \<or> int k = RetryAttempts opts - 1"
  shows "retryWithBackoff opts ctxDone fn w =
           (Some e, afterCalls fn (Suc k) w, failedAttempts opts 0 k @ [Attempt (int k)])"
proof -
  let ?w = "afterCalls fn k w"
  let ?last = "if k = 0 then None else fst (fn (afterCalls fn (k - 1) w))"
  have f: "fn ?w = (Some e, afterCalls fn (Suc k) w)"
    using e afterCalls_Suc [of fn k w] by (cases "fn ?w") (simp del: afterCalls.simps)
  have "retryLoop opts ctxDone fn (int k) ?last ?w =
          (Some e, afterCalls fn (Suc k) w, [Attempt (int k)])"
  proof (cases "retryable e")
    case False
    then show ?thesis using k f by (rule_tac retryLoop_fatal)
  next
    case True
    with stop have "\<not> int k < RetryAttempts opts - 1" by simp
    with k show ?thesis using f True by (rule_tac retryLoop_last)
  qed
  moreover have "retryLoop opts ctxDone fn 0 None w =
       (case retryLoop opts ctxDone fn (0 + int k) ?last (afterCalls fn k w) of
          (r, w'', ev) \<Rightarrow> (r, w'', failedAttempts opts 0 k @ ev))"
    by (rule retryLoop_failed_prefix) (use prev nocancel k in simp_all)
  ultimately show ?thesis by (simp add: retryWithBackoff_def)
qed

text \<open>
  Claim C4: in a run whose first \<open>k\<close> attempts fail retryably and are each followed
  by a completed wait, if attempt \<open>k\<close> fails with an error that is not classified
  retryable, that error is returned at once: the operation has run \<open>k + 1\<close> times
  and no further attempt is made. If attempt \<open>k\<close> is the last one allowed
  (\<open>k + 1 = RetryAttempts\<close>) and fails retryably too, the operation has run exactly
  \<open>RetryAttempts\<close> times and the value returned is that last failure, which is
  classified retryable.
\<close>

theorem retry_fatal_and_exhaustion:
  assumes k: "int k < RetryAttempts opts"
    and prev: "\<forall>j<k. failsRetryably fn w j"
    and nocancel: "\<forall>j<k. ctxDone (int j) = None"
  shows "(\<forall>e. fst (fn (afterCalls fn k w)) = Some e \<and> \<not> retryable e \<longrightarrow>
            retryWithBackoff opts ctxDone fn w =
              (Some e, afterCalls fn (Suc k) w, failedAttempts opts 0 k @ [Attempt (int k)]))
       \<and> (failsRetryably fn w k \<and> int k = RetryAttempts opts - 1 \<longrightarrow>
            (\<exists>e. retryable e \<and> fst (fn (afterCalls fn k w)) = Some e
                \<and> retryWithBackoff opts ctxDone fn w =
                    (Some e, afterCalls fn (Suc k) w,
                     failedAttempts opts 0 k @ [Attempt (int k)])))
       \<and> length (filter isAttempt (failedAttempts opts 0 k @ [Attempt (int k)])) = Suc k"
proof (intro conjI allI impI)
  fix e assume "fst (fn (afterCalls fn k w)) = Some e \<and> \<not> retryable e"
  then show "retryWithBackoff opts ctxDone fn w =
      (Some e, afterCalls fn (Suc k) w, failedAttempts opts 0 k @ [Attempt (int k)])"
    using retryWithBackoff_stops [OF k prev nocancel] by blast
next
  assume a: "failsRetryably fn w k \<and> int k = RetryAttempts opts - 1"
  then obtain e where e: "fst (fn (afterCalls fn k w)) = Some e" "retryable e"
    by (auto simp: failsRetryably_def split: option.splits)
  then show "\<exists>e. retryable e \<and> fst (fn (afterCalls fn k w)) = Some e
      \<and> retryWithBackoff opts ctxDone fn w =
          (Some e, afterCalls fn (Suc k) w, failedAttempts opts 0 k @ [Attempt (int k)])"
    using retryWithBackoff_stops [OF k prev nocancel e(1)] a by blast
next
  show "length (filter isAttempt (failedAttempts opts 0 k @ [Attempt (int k)])) = Suc k"
    by (simp add: attempts_failedAttempts)
qed

lemma alwaysThrottled_fails: "failsRetryably alwaysThrottled w j"
proof (induction j arbitrary: w)
  case 0
  show ?case
    by (simp add: failsRetryably_def alwaysThrottled_def retryable_def throttled_def
          NewAPIError_def)
next
  case (Suc j)
  then show ?case by (simp add: failsRetryably_Suc)
qed

text \<open>
  The classification that \<open>NewAPIError\<close> attaches: rate-limit, timeout, network and
  no-entry errors are retryable, all others are not.
\<close>

lemma retryable_NewAPIError:
  "retryable (NewAPIError t m e) \<longleftrightarrow>
     t = ErrorTypeRateLimit \<or> t = ErrorTypeTimeout \<or> t = ErrorTypeNetwork \<or> t = ErrorTypeNoEntry"
  by (simp add: retryable_def NewAPIError_def)

lemma throttled_retryable: "retryable throttled" "\<not> retryable parseFailure"
  by (simp_all add: retryable_def throttled_def parseFailure_def NewAPIError_def)

theorem retry_fatal_and_exhaustion_witness:
  "retryWithBackoff DefaultClientOptions neverDone alwaysThrottled 0 =
     (Some throttled, 3, [Attempt 0, Wait 0, Attempt 1, Wait 1000000000, Attempt 2])
   \<and> retryable throttled
   \<and> retryWithBackoff DefaultClientOptions neverDone throttledThenMalformed 0 =
     (Some parseFailure, 2, [Attempt 0, Wait 0, Attempt 1])
   \<and> \<not> retryable parseFailure"
proof -
  have a1: "int 2 < RetryAttempts DefaultClientOptions"
    "\<forall>j<2. failsRetryably alwaysThrottled 0 j" "\<forall>j<2. neverDone (int j) = None"
    by (simp_all add: DefaultClientOptions_def alwaysThrottled_fails neverDone_def)
  have last: "failsRetryably alwaysThrottled 0 2 \<and> int 2 = RetryAttempts DefaultClientOptions - 1"
    by (simp add: DefaultClientOptions_def alwaysThrottled_fails)
  have calls: "afterCalls alwaysThrottled 2 0 = 2" "afterCalls alwaysThrottled (Suc 2) 0 = 3"
    "fst (alwaysThrottled 2) = Some throttled"
    by (simp_all add: eval_nat_numeral alwaysThrottled_def)
  have ev: "failedAttempts DefaultClientOptions 0 2 = [Attempt 0, Wait 0, Attempt 1, Wait 1000000000]"
    by (simp add: eval_nat_numeral DefaultClientOptions_def)
  have r1: "retryWithBackoff DefaultClientOptions neverDone alwaysThrottled 0 =
     (Some throttled, 3, [Attempt 0, Wait 0, Attempt 1, Wait 1000000000, Attempt 2])"
    using retry_fatal_and_exhaustion
      [where k = 2 and opts = DefaultClientOptions and fn = alwaysThrottled and w = 0
         and ctxDone = neverDone] a1 last calls ev
    by auto
  have a2: "int 1 < RetryAttempts DefaultClientOptions"
    "\<forall>j<1. failsRetryably throttledThenMalformed 0 j" "\<forall>j<1. neverDone (int j) = None"
    by (simp_all add: DefaultClientOptions_def neverDone_def failsRetryably_def
          throttledThenMalformed_def throttled_retryable)
  have fatal: "fst (throttledThenMalformed (afterCalls throttledThenMalformed 1 0)) = Some parseFailure"
    "afterCalls throttledThenMalformed (Suc 1) 0 = 2"
    by (simp_all add: eval_nat_numeral throttledThenMalformed_def)
  have ev2: "failedAttempts DefaultClientOptions 0 1 = [Attempt 0, Wait 0]"
    by simp
  have r2: "retryWithBackoff DefaultClientOptions neverDone throttledThenMalformed 0 =
     (Some parseFailure, 2, [Attempt 0, Wait 0, Attempt 1])"
    using retry_fatal_and_exhaustion
      [where k = 1 and opts = DefaultClientOptions and fn = throttledThenMalformed and w = 0
         and ctxDone = neverDone] a2 fatal ev2 throttled_retryable(2)
    by auto
  show ?thesis using r1 r2 throttled_retryable by simp
qed

lemma retryLoop_events:
  "retryLoop opts ctxDone fn a lastErr w = (r, w', ev) \<Longrightarrow>
     (ev = [] \<or> hd ev = Attempt a)
     \<and> (\<forall>i b. Suc i < length ev \<and> ev ! Suc i = Attempt b \<longrightarrow>
            ev ! i = Wait (if b = 1 then 0 else RetryDelay opts))"
proof (induction "nat (RetryAttempts opts - a)" arbitrary: a lastErr w r w' ev)
  case 0
  then have "\<not> a < RetryAttempts opts" by simp
  with "0.prems" show ?case by (simp add: retryLoop_done)
next
  case (Suc n)
  then have lt: "a < RetryAttempts opts" by simp
  obtain res w1 where f: "fn w = (res, w1)" by (cases "fn w")
  show ?case
  proof (cases res)
    case None
    with Suc.prems lt f show ?thesis by (auto simp: retryLoop_success)
  next
    case (Some e)
    show ?thesis
    proof (cases "retryable e")
      case False
      with Suc.prems lt f Some show ?thesis by (auto simp: retryLoop_fatal)
    next
      case True
      show ?thesis
      proof (cases "a < RetryAttempts opts - 1")
        case False
        with Suc.prems lt f Some True show ?thesis by (auto simp: retryLoop_last)
      next
        case wait: True
        show ?thesis
        proof (cases "ctxDone a")
          case (Some cerr)
          with Suc.prems wait f \<open>res = Some e\<close> True show ?thesis
            by (auto simp: retryLoop_cancelled less_Suc_eq)
        next
          case None
          obtain r2 w2 ev2 where rest:
            "retryLoop opts ctxDone fn (a + 1) (Some e) w1 = (r2, w2, ev2)"
            by (cases "retryLoop opts ctxDone fn (a + 1) (Some e) w1")
          have n: "n = nat (RetryAttempts opts - (a + 1))" using Suc.hyps(2) by simp
          note IH = Suc.hyps(1) [OF n rest]
          have ev: "ev = Attempt a # Wait (if a \<noteq> 0 then RetryDelay opts else 0) # ev2"
          proof -
            have fe: "fn w = (Some e, w1)" using f \<open>res = Some e\<close> by simp
            have "retryLoop opts ctxDone fn a lastErr w =
               (case retryLoop opts ctxDone fn (a + 1) (Some e) w1 of
                  (r, w'', ev) \<Rightarrow>
                    (r, w'', Attempt a # Wait (if a \<noteq> 0 then RetryDelay opts else 0) # ev))"
              using wait fe True None by (rule retryLoop_wait)
            then show ?thesis using Suc.prems rest by simp
          qed
          have "ev ! i = Wait (if b = 1 then 0 else RetryDelay opts)"
            if "Suc i < length ev" "ev ! Suc i = Attempt b" for i b
          proof (cases i)
            case 0
            with that ev show ?thesis by simp
          next
            case (Suc i1)
            show ?thesis
            proof (cases i1)
              case 0
              with that ev Suc have "ev2 \<noteq> []" "ev2 ! 0 = Attempt b" by auto
              with IH have "b = a + 1" by (auto simp: hd_conv_nth)
              with ev Suc 0 show ?thesis by simp
            next
              case (Suc i2)
              with that ev \<open>i = Suc i1\<close> have "Suc i2 < length ev2" "ev2 ! Suc i2 = Attempt b"
                by auto
              with IH have "ev2 ! i2 = Wait (if b = 1 then 0 else RetryDelay opts)" by blast
              with ev Suc \<open>i = Suc i1\<close> show ?thesis by simp
            qed
          qed
          then show ?thesis using ev by simp
        qed
      qed
    qed
  qed
qed

text \<open>
  Claim C5: in every run of \<open>retryWithBackoff\<close>, an attempt other than the first is
  immediately preceded by a completed wait, of no delay before the second attempt
  and of \<open>RetryDelay\<close> before the third and every later one. When the first attempt
  fails retryably, at least two attempts are allowed and the context is not done,
  the run starts with the first attempt, a wait of 0 and the second attempt.
\<close>

theorem backoff_delays:
  assumes "retryWithBackoff opts ctxDone fn w = (r, w', ev)"
  shows "(\<forall>i b. Suc i < length ev \<and> ev ! Suc i = Attempt b \<longrightarrow>
            ev ! i = Wait (if b = 1 then 0 else RetryDelay opts))
       \<and> (failsRetryably fn w 0 \<and> 2 \<le> RetryAttempts opts \<and> ctxDone 0 = None \<longrightarrow>
            take 3 ev = [Attempt 0, Wait 0, Attempt 1])"
proof (intro conjI impI)
  show "\<forall>i b. Suc i < length ev \<and> ev ! Suc i = Attempt b \<longrightarrow>
            ev ! i = Wait (if b = 1 then 0 else RetryDelay opts)"
    using retryLoop_events [of opts ctxDone fn 0 None w r w' ev] assms
    by (simp add: retryWithBackoff_def)
next
  assume a: "failsRetryably fn w 0 \<and> 2 \<le> RetryAttempts opts \<and> ctxDone 0 = None"
  then obtain e w1 where f: "fn w = (Some e, w1)" "retryable e"
    by (auto simp: failsRetryably_0)
  obtain r2 w2 ev2 where rest: "retryLoop opts ctxDone fn (0 + 1) (Some e) w1 = (r2, w2, ev2)"
    by (cases "retryLoop opts ctxDone fn (0 + 1) (Some e) w1")
  have lt: "(0::int) < RetryAttempts opts - 1" using a by simp
  have c: "ctxDone 0 = None" using a by simp
  have ev: "ev = Attempt 0 # Wait 0 # ev2"
  proof -
    have "retryLoop opts ctxDone fn 0 None w =
       (case retryLoop opts ctxDone fn (0 + 1) (Some e) w1 of
          (r, w'', ev) \<Rightarrow>
            (r, w'', Attempt 0 # Wait (if (0::int) \<noteq> 0 then RetryDelay opts else 0) # ev))"
      using lt f c by (rule retryLoop_wait)
    then show ?thesis using assms rest by (simp add: retryWithBackoff_def)
  qed
  have "ev2 \<noteq> [] \<and> hd ev2 = Attempt 1"
  proof -
    have "(1::int) < RetryAttempts opts" using a by simp
    then have "ev2 \<noteq> []"
      using rest
      by (subst (asm) retryLoop.simps) (auto simp: Let_def split: prod.splits option.splits if_splits)
    then show ?thesis using retryLoop_events [OF rest] by auto
  qed
  then show "take 3 ev = [Attempt 0, Wait 0, Attempt 1]"
    using ev by (cases ev2) (simp_all add: numeral_3_eq_3)
qed

lemma throttled_run:
  "retryWithBackoff DefaultClientOptions neverDone alwaysThrottled 0 =
     (Some throttled, 3, [Attempt 0, Wait 0, Attempt 1, Wait 1000000000, Attempt 2])"
  by (simp add: retryWithBackoff_def retryLoop.simps DefaultClientOptions_def neverDone_def
        alwaysThrottled_def throttled_def NewAPIError_def)

theorem backoff_delays_witness:
  "failsRetryably alwaysThrottled 0 0 \<and> 2 \<le> RetryAttempts DefaultClientOptions
   \<and> neverDone 0 = None
   \<and> take 3 [Attempt 0, Wait 0, Attempt 1, Wait 1000000000, Attempt 2]
       = [Attempt 0, Wait 0, Attempt 1]
   \<and> [Attempt 0, Wait 0, Attempt 1, Wait 1000000000, Attempt 2] ! Suc 3 = Attempt 2
   \<and> [Attempt 0, Wait 0, Attempt 1, Wait 1000000000, Attempt 2] ! 3
       = Wait (RetryDelay DefaultClientOptions)"
proof -
  have h: "failsRetryably alwaysThrottled 0 0 \<and> 2 \<le> RetryAttempts DefaultClientOptions
      \<and> neverDone 0 = None"
    by (simp add: alwaysThrottled_fails DefaultClientOptions_def neverDone_def)
  have third: "Suc 3 < length [Attempt 0, Wait 0, Attempt 1, Wait 1000000000, Attempt 2]
      \<and> [Attempt 0, Wait 0, Attempt 1, Wait 1000000000, Attempt 2] ! Suc 3 = Attempt 2"
    by (simp add: eval_nat_numeral)
  from backoff_delays [OF throttled_run] h
  have first: "take 3 [Attempt 0, Wait 0, Attempt 1, Wait 1000000000, Attempt 2]
          = [Attempt 0, Wait 0, Attempt 1]"
    by blast
  from backoff_delays [OF throttled_run] third
  have "[Attempt 0, Wait 0, Attempt 1, Wait 1000000000, Attempt 2] ! 3
          = Wait (if (2::int) = 1 then 0 else RetryDelay DefaultClientOptions)"
    by blast
  then show ?thesis
    using h first third by simp
qed

section \<open>Queries with neither a search expression nor an identifier list\<close>

lemmas search_defs =
  Search_def retryWithBackoff_def retryLoop.simps searchAttempt_def applyRateLimit_def
  buildQueryParams_def Values_Set_def strconv_Itoa_def defaultMaxResults_def defaultSortBy_def
  defaultSortOrder_def Let_def

text \<open>
  Claim C9, as stated: \<open>Search\<close> on a query with neither a search expression nor an
  identifier list fails with an invalid-query error and issues no request. It does
  not: \<open>Search\<close> checks only that the query pointer is not nil. For such a query,
  against a server that answers 200, it sends one request (with neither
  \<open>search_query\<close> nor \<open>id_list\<close> among its parameters) and returns the parsed result
  with a nil error.
\<close>

theorem Search_empty_query_counterexample:
  "SearchQuery emptyQuery = '''' \<and> IDList emptyQuery = []
   \<and> Search okServer neverDone freshWorld (Some emptyQuery) =
       ((Some singleMatch, None),
        \<lparr>client = NewClient\<lparr>lastRequest := 5000000000\<rparr>, result = Some singleMatch,
         requests = [ [(''max_results'', ''1''), (''sortBy'', ''relevance''),
                      (''sortOrder'', ''descending'')] ],
         tick = 1\<rparr>,
        [Attempt 0])"
  by (simp add: search_defs emptyQuery_def okServer_def freshWorld_def NewClient_def
        DefaultClientOptions_def neverDone_def)

lemma retryLoop_invariant:
  assumes step: "\<And>w r w'. fn w = (r, w') \<Longrightarrow> R w w'"
    and refl: "\<And>w. R w w"
    and trans: "\<And>a b c. R a b \<Longrightarrow> R b c \<Longrightarrow> R a c"
  shows "retryLoop opts ctxDone fn a lastErr w = (r, w', ev) \<Longrightarrow> R w w'"
proof (induction "nat (RetryAttempts opts - a)" arbitrary: a lastErr w r w' ev)
  case 0
  then have "\<not> a < RetryAttempts opts" by simp
  with "0.prems" show ?case by (auto simp: retryLoop_done refl)
next
  case (Suc n)
  then have lt: "a < RetryAttempts opts" by simp
  obtain res w1 where f: "fn w = (res, w1)" by (cases "fn w")
  have n: "n = nat (RetryAttempts opts - (a + 1))" using Suc.hyps(2) by simp
  have R1: "R w w1" using step [OF f] .
  have "w' = w1 \<or> (\<exists>e r2 ev2. retryLoop opts ctxDone fn (a + 1) (Some e) w1 = (r2, w', ev2))"
    using Suc.prems lt f
    by (subst (asm) retryLoop.simps)
       (auto simp: Let_def split: prod.splits option.splits if_splits)
  then show ?case
  proof
    assume "w' = w1" with R1 show ?thesis by simp
  next
    assume "\<exists>e r2 ev2. retryLoop opts ctxDone fn (a + 1) (Some e) w1 = (r2, w', ev2)"
    then obtain e r2 ev2 where "retryLoop opts ctxDone fn (a + 1) (Some e) w1 = (r2, w', ev2)"
      by blast
    from Suc.hyps(1) [OF n this] R1 show ?thesis by (rule trans [rotated])
  qed
qed

lemma searchAttempt_requests:
  "searchAttempt env q w = (r, w') \<Longrightarrow> \<exists>rest. requests w' = requests w @ rest"
  by (auto simp: searchAttempt_def Let_def applyRateLimit_def
           split: option.splits prod.splits if_splits sum.splits)

lemma searchAttempt_sends:
  "newRequestErr (env (tick w)) = None \<Longrightarrow> rlCtxDone (env (tick w)) = None \<Longrightarrow>
   searchAttempt env q w = (r, w') \<Longrightarrow> requests w' = requests w @ [buildQueryParams q]"
  by (auto simp: searchAttempt_def Let_def applyRateLimit_def
           split: option.splits prod.splits if_splits sum.splits)

lemma retryLoop_requests:
  "retryLoop opts ctxDone (searchAttempt env q) a lastErr w = (r, w', ev) \<Longrightarrow>
     \<exists>rest. requests w' = requests w @ rest"
  by (rule retryLoop_invariant
        [where R = "\<lambda>w w'. \<exists>rest. requests w' = requests w @ rest"
           and fn = "searchAttempt env q"])
     (auto dest: searchAttempt_requests)

lemma Search_sends_request:
  assumes N: "0 < RetryAttempts (options (client w))"
    and env: "newRequestErr (env (tick w)) = None" "rlCtxDone (env (tick w)) = None"
    and run: "Search env ctxDone w (Some q) = (res, w', ev)"
  shows "\<exists>rest. requests w' = requests w @ buildQueryParams q # rest"
proof -
  let ?w0 = "w\<lparr>result := None\<rparr>"
  let ?opts = "options (client w)"
  obtain r wf where loop: "retryLoop ?opts ctxDone (searchAttempt env q) 0 None ?w0 = (r, wf, ev)"
      and w': "w' = wf"
    using run
    by (auto simp: Search_def retryWithBackoff_def split: prod.splits if_splits)
  obtain r1 w1 where f: "searchAttempt env q ?w0 = (r1, w1)" by (cases "searchAttempt env q ?w0")
  have sent: "requests w1 = requests w @ [buildQueryParams q]"
    using searchAttempt_sends [of env ?w0 q r1 w1] env f by simp
  have "wf = w1
      \<or> (\<exists>e r2 ev2. retryLoop ?opts ctxDone (searchAttempt env q) (0 + 1) (Some e) w1 = (r2, wf, ev2))"
    using loop N f
    by (subst (asm) retryLoop.simps)
       (auto simp: Let_def split: prod.splits option.splits if_splits)
  then show ?thesis
  proof
    assume "wf = w1" with sent w' show ?thesis by simp
  next
    assume "\<exists>e r2 ev2. retryLoop ?opts ctxDone (searchAttempt env q) (0 + 1) (Some e) w1 = (r2, wf, ev2)"
    then obtain rest where "requests wf = requests w1 @ rest"
      using retryLoop_requests by blast
    with sent w' show ?thesis by simp
  qed
qed

text \<open>
  Claim C9, amended: \<open>Search\<close> fails with an invalid-query error, without an
  attempt, when the query is nil. The check for a query with neither a search
  expression nor an identifier list is made by the query builder: when the builder
  has no accumulated error, an empty identifier list and an empty built search
  expression, \<open>Execute\<close> fails with an invalid-query error and \<open>Search\<close> is not
  called. \<open>Search\<close> itself sends such a query when it is not nil: if at least one
  attempt is allowed, the request can be created and the rate limiter is not
  interrupted, the first attempt hands the query's parameters to the HTTP client.
\<close>

theorem invalid_query_checks:
  "Search env ctxDone w None =
     ((None, Some (NewAPIError ErrorTypeInvalidQuery ''query cannot be nil'' None)), w, [])
   \<and> (errors qb = [] \<and> idList qb = [] \<and> buildSearchQuery qb = '''' \<longrightarrow>
        Execute env ctxDone w qb =
          ((None, Some (NewAPIError ErrorTypeInvalidQuery
                          ''either search query or ID list must be provided'' None)), w, []))
   \<and> (SearchQuery q = '''' \<and> IDList q = [] \<and> 0 < RetryAttempts (options (client w))
        \<and> newRequestErr (env (tick w)) = None \<and> rlCtxDone (env (tick w)) = None \<longrightarrow>
        (\<exists>rest. requests (fst (snd (Search env ctxDone w (Some q))))
                  = requests w @ buildQueryParams q # rest))"
proof (intro conjI impI)
  show "Search env ctxDone w None =
     ((None, Some (NewAPIError ErrorTypeInvalidQuery ''query cannot be nil'' None)), w, [])"
    by (simp add: Search_def)
next
  assume "errors qb = [] \<and> idList qb = [] \<and> buildSearchQuery qb = ''''"
  then show "Execute env ctxDone w qb =
          ((None, Some (NewAPIError ErrorTypeInvalidQuery
                          ''either search query or ID list must be provided'' None)), w, [])"
    by (simp add: Execute_def buildQuery_def)
next
  assume a: "SearchQuery q = '''' \<and> IDList q = [] \<and> 0 < RetryAttempts (options (client w))
        \<and> newRequestErr (env (tick w)) = None \<and> rlCtxDone (env (tick w)) = None"
  obtain res w' ev where run: "Search env ctxDone w (Some q) = (res, w', ev)"
    by (cases "Search env ctxDone w (Some q)")
  from Search_sends_request [OF _ _ _ run] a
  show "\<exists>rest. requests (fst (snd (Search env ctxDone w (Some q))))
                  = requests w @ buildQueryParams q # rest"
    by (simp add: run)
qed

lemma buildSearchQuery_NewQuery: "buildSearchQuery NewQuery = ''''"
  by (simp add: buildSearchQuery_def NewQuery_def filterPart_def)

theorem invalid_query_checks_witness:
  "errors NewQuery = [] \<and> idList NewQuery = [] \<and> buildSearchQuery NewQuery = ''''
   \<and> Execute okServer neverDone freshWorld NewQuery =
       ((None, Some (NewAPIError ErrorTypeInvalidQuery
                       ''either search query or ID list must be provided'' None)),
        freshWorld, [])
   \<and> Search okServer neverDone freshWorld None =
       ((None, Some (NewAPIError ErrorTypeInvalidQuery ''query cannot be nil'' None)),
        freshWorld, [])
   \<and> SearchQuery emptyQuery = '''' \<and> IDList emptyQuery = []
   \<and> 0 < RetryAttempts (options (client freshWorld))
   \<and> newRequestErr (okServer (tick freshWorld)) = None
   \<and> rlCtxDone (okServer (tick freshWorld)) = None
   \<and> (\<exists>rest. requests (fst (snd (Search okServer neverDone freshWorld (Some emptyQuery))))
               = requests freshWorld @ buildQueryParams emptyQuery # rest)"
proof -
  have h1: "errors NewQuery = [] \<and> idList NewQuery = [] \<and> buildSearchQuery NewQuery = ''''"
    by (simp add: buildSearchQuery_NewQuery) (simp add: NewQuery_def)
  have h2: "SearchQuery emptyQuery = '''' \<and> IDList emptyQuery = []
     \<and> 0 < RetryAttempts (options (client freshWorld))
     \<and> newRequestErr (okServer (tick freshWorld)) = None
     \<and> rlCtxDone (okServer (tick freshWorld)) = None"
    by (simp add: emptyQuery_def freshWorld_def NewClient_def DefaultClientOptions_def
          okServer_def)
  show ?thesis
    using invalid_query_checks [of okServer neverDone freshWorld NewQuery emptyQuery] h1 h2
    by blast
qed

end
